theory Spec2Isabelle
  imports Main "HOL-Library.Word"
begin

section \<open>Data model of \<open>aboot_init\<close>\<close>

text \<open>
  The only function under verification is \<open>aboot_init\<close> (app/aboot/aboot.c). Everything it
  calls lives outside the verified source: hardware queries are fields of the record
  \<open>env\<close>, conditional-compilation flags and constants are fields of the record
  \<open>config\<close>, the globals it reads and writes are the record \<open>state\<close>, and every call
  with an effect on the outside world is appended to the \<open>trace\<close> of the state, in program
  order.
\<close>

datatype key = KEY_VOLUMEUP | KEY_VOLUMEDOWN | KEY_HOME | KEY_BACK

text \<open>
  Modelled from the spec: the numeric values of the reset-reason macros are not part of the
  source; the spec calls the reset-reason code a small closed enum. \<open>OTHER_REASON\<close> stands
  for every value of \<open>reboot_mode\<close> that equals none of the named macros (among them the
  initial 0).
\<close>

datatype reboot_reason =
    RECOVERY_MODE | FASTBOOT_MODE | ALARM_BOOT
  | DM_VERITY_ENFORCING | DM_VERITY_LOGGING | DM_VERITY_EIO | DM_VERITY_KEYSCLEAR
  | OTHER_REASON

text \<open>
  The values \<open>boot_linux_from_mmc\<close> can return: the four codes named in the \<open>switch\<close> of
  \<open>aboot_init\<close>, and \<open>ERR_OTHER\<close> for every value that reaches \<open>default\<close>.
\<close>

datatype boot_err =
    ERR_INVALID_PAGE_SIZE | ERR_DT_PARSE | ERR_ABOOT_ADDR_OVERLAP | ERR_INVALID_BOOT_MAGIC
  | ERR_OTHER

text \<open>The fields of the global \<open>device\<close> that \<open>aboot_init\<close> touches.\<close>

record device_info =
  is_unlocked :: bool
  is_tampered :: bool
  verity_mode :: int
  display_panel :: string

text \<open>
  Modelled from the spec: the slot table is not part of the source. A slot is
  \<open>{index, active, bootable}\<close>; the index is the position in the table.
\<close>

record slot_info =
  active :: bool
  bootable :: bool

text \<open>
  Calls with an outside effect, as they appear in \<open>aboot_init\<close>. A slot argument is
  \<open>None\<close> for \<open>INVALID\<close>.
\<close>

datatype event =
    MsmWdogInit
  | MarkActiveSlot "nat option"
  | Lk2ndInit
  | TargetDisplayInit string
  | DisplayImageOnScreen
  | TargetSerialno
  | RebootDevice
  | WriteDeviceInfo device_info
  | SendDeleteKeysToTz
  | Lk2ndBoot
  | EmmcRecoveryInit
  | RecoveryInit
  | SetTamperFuseCmd
  | SetTamperFlag bool
  | BootLinuxFromMmc "nat option"
  | DeactivateSlot "nat option"
  | BootLinuxFromFlash
  | FastbootRegisterCommands
  | AbootFastbootRegisterCommands
  | PartitionDump
  | FastbootInit bool
  | DisplayFastbootMenu

text \<open>
  How \<open>aboot_init\<close> ends: control passes to a kernel (a boot call does not return), the
  function returns after starting fastboot, \<open>reboot_device(EMERGENCY_DLOAD)\<close> resets the
  device, or an \<open>ASSERT\<close> fails and the boot halts. In the words of the spec, the first is
  \<open>StartNormal\<close> or \<open>StartRecovery\<close>, the second \<open>EnterFastboot\<close>, the third
  \<open>EnterEmergencyDownload\<close>; a halt produces no decision.
\<close>

datatype outcome = KernelStarted | FastbootStarted | DloadReset | Halted

text \<open>Conditional compilation and constants.\<close>

record config =
  WDOG_SUPPORT :: bool
  ABOOT_STANDALONE :: bool
  WITH_LK2ND :: bool
  DISPLAY_SPLASH_SCREEN :: bool
  NO_ALARM_DISPLAY :: bool
  DISPLAY_HDMI_PRIMARY :: bool
  ENABLE_WBC :: bool
  NO_KEYPAD_DRIVER :: bool
  USE_PON_REBOOT_REG :: bool
  VERIFIED_BOOT :: bool
  VERIFIED_BOOT_2 :: bool
  ENABLE_VB_ATTEST :: bool
  LK2ND_FORCE_FASTBOOT :: bool
  WITH_LK2ND_BOOT :: bool
  TZ_TAMPER_FUSE :: bool
  USE_PCOM_SECBOOT :: bool
  FBCON_DISPLAY_MSG :: bool
  WITH_LK2ND_DEVICE_MENU :: bool
  VB_M :: int
  MEMBASE :: "32 word"
  MEMSIZE :: "32 word"
  DISPLAY_PANEL_HDMI :: string
  display_panel_size :: nat

text \<open>
  What the hardware and the collaborators answer during one boot. A query that the source
  may repeat (\<open>keys_get_state\<close>, \<open>partition_multislot_is_supported\<close>,
  \<open>target_is_emmc_boot\<close>) answers the same every time. \<open>reboot_device_returns\<close> says
  whether \<open>reboot_device(EMERGENCY_DLOAD)\<close> comes back (the request failed);
  \<open>boot_linux_from_mmc n slot\<close> is the result of the \<open>n\<close>-th load attempt, \<open>None\<close> when the
  kernel started and the call never returned; \<open>pm_app_display_shutdown_in_prgs k\<close> is the
  answer to the \<open>k\<close>-th poll; \<open>read_allow_oem_unlock\<close> is what the call of that name
  does to the device record; \<open>lk2nd_init_serial\<close> is what \<open>lk2nd_init\<close> leaves in
  \<open>sn_buf\<close>. The results of \<open>emmc_recovery_init\<close> and \<open>boot_linux_from_flash\<close> are
  only printed or dropped by \<open>aboot_init\<close>.
\<close>

record env =
  target_is_emmc_boot :: bool
  mmc_page_size :: "32 word"
  mmc_get_device_blocksize :: "32 word"
  flash_page_size :: "32 word"
  read_allow_oem_unlock :: "device_info \<Rightarrow> device_info"
  partition_multislot_is_supported :: bool
  lk2nd_init_serial :: string
  check_alarm_boot :: bool
  pm_app_display_shutdown_in_prgs :: "nat \<Rightarrow> bool"
  pm_appsbl_display_init_done :: bool
  target_serialno :: string
  is_user_force_reset :: bool
  keys_get_state :: "key \<Rightarrow> bool"
  reboot_device_returns :: bool
  fastboot_trigger :: bool
  check_hard_reboot_mode :: reboot_reason
  check_reboot_mode :: reboot_reason
  target_get_vb_version :: int
  write_device_info_fails :: bool
  send_delete_keys_to_tz :: int
  lk2nd_boot_returns :: bool
  emmc_recovery_init :: int
  target_use_signed_kernel :: bool
  boot_linux_from_mmc :: "nat \<Rightarrow> nat option \<Rightarrow> boot_err option"
  boot_linux_from_flash_returns :: bool

text \<open>
  The globals of aboot.c that \<open>aboot_init\<close> uses, the non-volatile copy of the device
  record (\<open>nv_device\<close>), the slot table, and the trace.
\<close>

record state =
  page_size :: "32 word"
  page_mask :: "32 word"
  mmc_blocksize :: "32 word"
  mmc_blocksize_mask :: "32 word"
  device :: device_info
  nv_device :: device_info
  slots :: "slot_info list"
  boot_into_fastboot :: bool
  boot_into_recovery :: int
  boot_reason_alarm :: bool
  sn_buf :: string
  display_panel_buf :: string
  trace :: "event list"

definition log :: "event \<Rightarrow> state \<Rightarrow> state" where
  "log e s = s\<lparr>trace := trace s @ [e]\<rparr>"

section \<open>Collaborators\<close>

subsection \<open>Slot table\<close>

primrec first_index :: "('a \<Rightarrow> bool) \<Rightarrow> 'a list \<Rightarrow> nat option" where
  "first_index P [] = None"
| "first_index P (x # xs) = (if P x then Some 0 else map_option Suc (first_index P xs))"

text \<open>
  Modelled from the spec: \<open>partition_find_active_slot\<close> is not part of the source.
  \<open>findActive\<close> returns the currently active slot, or none if the slot table is absent or
  corrupt (no slot is marked active).
\<close>

definition partition_find_active_slot :: "slot_info list \<Rightarrow> nat option" where
  "partition_find_active_slot tbl = first_index active tbl"

text \<open>
  Modelled from the spec: \<open>partition_find_boot_slot\<close> is not part of the source.
  \<open>findBootable\<close> returns the highest-priority slot still marked bootable, none if all
  slots are exhausted; the active slot comes first (the arbiter selects "the active (or next
  bootable) slot"), then the slots in table order.
\<close>

definition partition_find_boot_slot :: "slot_info list \<Rightarrow> nat option" where
  "partition_find_boot_slot tbl =
     (case first_index (\<lambda>sl. active sl \<and> bootable sl) tbl of
        Some i \<Rightarrow> Some i
      | None \<Rightarrow> first_index bootable tbl)"

text \<open>
  Modelled from the spec: \<open>partition_mark_active_slot\<close> is not part of the source.
  \<open>markActive\<close> sets exactly one slot active and clears any previously active slot. The
  spec says nothing about \<open>INVALID\<close> or an index outside the table; the table is left as it
  is there.
\<close>

definition mark_active :: "nat option \<Rightarrow> slot_info list \<Rightarrow> slot_info list" where
  "mark_active slot tbl =
     (case slot of
        None \<Rightarrow> tbl
      | Some i \<Rightarrow>
          if i < length tbl
          then map (\<lambda>(j, sl). sl\<lparr>active := (j = i)\<rparr>) (zip [0..<length tbl] tbl)
          else tbl)"

definition partition_mark_active_slot :: "nat option \<Rightarrow> state \<Rightarrow> state" where
  "partition_mark_active_slot slot s =
     log (MarkActiveSlot slot) (s\<lparr>slots := mark_active slot (slots s)\<rparr>)"

text \<open>
  Modelled from the spec: \<open>partition_deactivate_slot\<close> is not part of the source.
  \<open>deactivate\<close> clears \<open>bootable\<close> of the slot and is idempotent.
\<close>

definition deactivate :: "nat option \<Rightarrow> slot_info list \<Rightarrow> slot_info list" where
  "deactivate slot tbl =
     (case slot of
        None \<Rightarrow> tbl
      | Some i \<Rightarrow> if i < length tbl then tbl[i := (tbl ! i)\<lparr>bootable := False\<rparr>] else tbl)"

definition partition_deactivate_slot :: "nat option \<Rightarrow> state \<Rightarrow> state" where
  "partition_deactivate_slot slot s =
     log (DeactivateSlot slot) (s\<lparr>slots := deactivate slot (slots s)\<rparr>)"

subsection \<open>Device record\<close>

text \<open>
  Modelled from the spec: \<open>read_device_info\<close> is not part of the source. The device record
  is loaded once at boot start from its non-volatile copy.
\<close>

definition read_device_info :: "state \<Rightarrow> state" where
  "read_device_info s = s\<lparr>device := nv_device s\<rparr>"

text \<open>
  Modelled from the spec: \<open>write_device_info\<close> is not part of the source. A non-volatile
  write is synchronous and either completes or the whole boot halts: a failed write stops
  the boot with the non-volatile copy unchanged, a successful one stores the record.
\<close>

definition write_device_info :: "env \<Rightarrow> state \<Rightarrow> outcome \<times> state + state" where
  "write_device_info env s =
     (let s1 = log (WriteDeviceInfo (device s)) s
      in if write_device_info_fails env then Inl (Halted, s1)
         else Inr (s1\<lparr>nv_device := device s\<rparr>))"

text \<open>\<open>strlcpy(dst, src, size)\<close> into an empty \<open>dst\<close>: at most \<open>size - 1\<close> characters.\<close>

definition strlcpy :: "string \<Rightarrow> nat \<Rightarrow> string" where
  "strlcpy src n = take (n - 1) src"

section \<open>\<open>aboot_init\<close>\<close>

subsection \<open>Set-up (up to the \<open>memset\<close> of the panel buffer)\<close>

definition set_page_size :: "env \<Rightarrow> state \<Rightarrow> state" where
  "set_page_size env s =
     (if target_is_emmc_boot env
      then s\<lparr>page_size := mmc_page_size env,
             page_mask := mmc_page_size env - 1,
             mmc_blocksize := mmc_get_device_blocksize env,
             mmc_blocksize_mask := mmc_get_device_blocksize env - 1\<rparr>
      else s\<lparr>page_size := flash_page_size env,
             page_mask := flash_page_size env - 1\<rparr>)"

definition load_device :: "config \<Rightarrow> env \<Rightarrow> state \<Rightarrow> state" where
  "load_device cfg env s =
     (if \<not> ABOOT_STANDALONE cfg
      then (let s1 = read_device_info s in s1\<lparr>device := read_allow_oem_unlock env (device s1)\<rparr>)
      else s\<lparr>device := (device s)\<lparr>is_unlocked := True\<rparr>\<rparr>)"

text \<open>The result is the local \<open>boot_slot\<close> (initially \<open>INVALID\<close>) and the new state.\<close>

definition detect_active_slot :: "env \<Rightarrow> state \<Rightarrow> nat option \<times> state" where
  "detect_active_slot env s =
     (if partition_multislot_is_supported env
      then (let boot_slot = partition_find_active_slot (slots s)
            in if boot_slot = None
               then (boot_slot, s\<lparr>boot_into_fastboot := True\<rparr>)
               else (boot_slot, partition_mark_active_slot boot_slot s))
      else (None, s))"

text \<open>
  \<open>lk2nd_init\<close> is not part of the source; what \<open>aboot_init\<close> reads of it afterwards is
  \<open>sn_buf\<close>, which the environment supplies.
\<close>

definition lk2nd_init :: "config \<Rightarrow> env \<Rightarrow> state \<Rightarrow> state" where
  "lk2nd_init cfg env s =
     (if WITH_LK2ND cfg then log Lk2ndInit (s\<lparr>sn_buf := lk2nd_init_serial env\<rparr>) else s)"

text \<open>
  \<open>while (pm_app_display_shutdown_in_prgs());\<close> The result is the number of the poll that
  answered false; the loop may never end.
\<close>

partial_function (option) display_shutdown_wait :: "(nat \<Rightarrow> bool) \<Rightarrow> nat \<Rightarrow> nat option" where
  "display_shutdown_wait busy k =
     (if busy k then display_shutdown_wait busy (Suc k) else Some k)"

definition display_init :: "config \<Rightarrow> env \<Rightarrow> state \<Rightarrow> state option" where
  "display_init cfg env s =
     (if DISPLAY_SPLASH_SCREEN cfg \<and> \<not> (NO_ALARM_DISPLAY cfg \<and> check_alarm_boot env)
      then
        (let s1 = (if DISPLAY_HDMI_PRIMARY cfg \<and> length (display_panel (device s)) = 0
                   then s\<lparr>device := (device s)
                          \<lparr>display_panel := strlcpy (DISPLAY_PANEL_HDMI cfg) (display_panel_size cfg)\<rparr>\<rparr>
                   else s)
         in if ENABLE_WBC cfg
            then (case display_shutdown_wait (pm_app_display_shutdown_in_prgs env) 0 of
                    None \<Rightarrow> None
                  | Some k \<Rightarrow>
                      if \<not> pm_appsbl_display_init_done env
                      then Some (log (TargetDisplayInit (display_panel (device s1))) s1)
                      else Some (log DisplayImageOnScreen s1))
            else Some (log (TargetDisplayInit (display_panel (device s1))) s1))
      else Some s)"

definition read_serialno :: "config \<Rightarrow> env \<Rightarrow> state \<Rightarrow> state" where
  "read_serialno cfg env s =
     (let s1 = (if \<not> WITH_LK2ND cfg \<or> sn_buf s = []
                then log TargetSerialno (s\<lparr>sn_buf := target_serialno env\<rparr>)
                else s)
      in s1\<lparr>display_panel_buf := []\<rparr>)"

text \<open>
  \<open>None\<close>: the display wait never ends. \<open>Some (Inl _)\<close>: the \<open>ASSERT\<close> on the memory range
  failed. \<open>Some (Inr (boot_slot, s))\<close>: the set-up is done.
\<close>

definition aboot_setup ::
  "config \<Rightarrow> env \<Rightarrow> state \<Rightarrow> (outcome \<times> state + nat option \<times> state) option" where
  "aboot_setup cfg env g =
     (let s1 = (if WDOG_SUPPORT cfg then log MsmWdogInit g else g);
          s2 = set_page_size env s1
      in if \<not> (MEMBASE cfg + MEMSIZE cfg > MEMBASE cfg) then Some (Inl (Halted, s2))
         else
           (let s3 = load_device cfg env s2;
                (boot_slot, s4) = detect_active_slot env s3;
                s5 = lk2nd_init cfg env s4
            in case display_init cfg env s5 of
                 None \<Rightarrow> None
               | Some s6 \<Rightarrow> Some (Inr (boot_slot, read_serialno cfg env s6))))"

subsection \<open>Signals and policy (from \<open>is_user_force_reset\<close> to the label \<open>normal_boot\<close>)\<close>

definition dload_key_check :: "env \<Rightarrow> state \<Rightarrow> outcome \<times> state + state" where
  "dload_key_check env s =
     (if keys_get_state env KEY_VOLUMEUP \<and> keys_get_state env KEY_VOLUMEDOWN
      then (let s1 = log RebootDevice s
            in if reboot_device_returns env
               then Inr (s1\<lparr>boot_into_fastboot := True\<rparr>)
               else Inl (DloadReset, s1))
      else Inr s)"

definition single_key_check :: "env \<Rightarrow> state \<Rightarrow> state" where
  "single_key_check env s =
     (if \<not> boot_into_fastboot s
      then (let s1 = (if keys_get_state env KEY_VOLUMEUP then s\<lparr>boot_into_recovery := 1\<rparr> else s)
            in if boot_into_recovery s1 = 0 \<and>
                  (keys_get_state env KEY_HOME \<or> keys_get_state env KEY_BACK \<or>
                   keys_get_state env KEY_VOLUMEDOWN)
               then s1\<lparr>boot_into_fastboot := True\<rparr>
               else s1)
      else s)"

definition keypad_trigger :: "config \<Rightarrow> env \<Rightarrow> state \<Rightarrow> state" where
  "keypad_trigger cfg env s =
     (if NO_KEYPAD_DRIVER cfg \<and> fastboot_trigger env then s\<lparr>boot_into_fastboot := True\<rparr> else s)"

definition read_reboot_mode :: "config \<Rightarrow> env \<Rightarrow> reboot_reason" where
  "read_reboot_mode cfg env =
     (if USE_PON_REBOOT_REG cfg then check_hard_reboot_mode env else check_reboot_mode env)"

text \<open>The branch \<open>#if VERIFIED_BOOT || VERIFIED_BOOT_2\<close> with its test \<open>VB_M <= target_get_vb_version()\<close>.\<close>

definition vb_policy_enabled :: "config \<Rightarrow> env \<Rightarrow> bool" where
  "vb_policy_enabled cfg env \<longleftrightarrow>
     (VERIFIED_BOOT cfg \<or> VERIFIED_BOOT_2 cfg) \<and> VB_M cfg \<le> target_get_vb_version env"

text \<open>The reason code of the logging branch: \<open>DM_VERITY_EIO\<close> under \<open>ENABLE_VB_ATTEST\<close>.\<close>

definition verity_logging_code :: "config \<Rightarrow> reboot_reason" where
  "verity_logging_code cfg = (if ENABLE_VB_ATTEST cfg then DM_VERITY_EIO else DM_VERITY_LOGGING)"

definition apply_reboot_mode ::
  "config \<Rightarrow> env \<Rightarrow> reboot_reason \<Rightarrow> state \<Rightarrow> outcome \<times> state + state" where
  "apply_reboot_mode cfg env reboot_mode s =
     (if reboot_mode = RECOVERY_MODE then Inr (s\<lparr>boot_into_recovery := 1\<rparr>)
      else if reboot_mode = FASTBOOT_MODE then Inr (s\<lparr>boot_into_fastboot := True\<rparr>)
      else if reboot_mode = ALARM_BOOT then Inr (s\<lparr>boot_reason_alarm := True\<rparr>)
      else if vb_policy_enabled cfg env then
        (if reboot_mode = DM_VERITY_ENFORCING
         then write_device_info env (s\<lparr>device := (device s)\<lparr>verity_mode := 1\<rparr>\<rparr>)
         else if reboot_mode = verity_logging_code cfg
         then write_device_info env (s\<lparr>device := (device s)\<lparr>verity_mode := 0\<rparr>\<rparr>)
         else if reboot_mode = DM_VERITY_KEYSCLEAR
         then (let s1 = log SendDeleteKeysToTz s
               in if send_delete_keys_to_tz env \<noteq> 0 then Inl (Halted, s1) else Inr s1)
         else Inr s)
      else Inr s)"

definition force_fastboot :: "config \<Rightarrow> state \<Rightarrow> state" where
  "force_fastboot cfg s = (if LK2ND_FORCE_FASTBOOT cfg then s\<lparr>boot_into_fastboot := True\<rparr> else s)"

text \<open>\<open>Inr s\<close>: control reaches the label \<open>normal_boot\<close> in state \<open>s\<close>.\<close>

definition signal_phase :: "config \<Rightarrow> env \<Rightarrow> state \<Rightarrow> outcome \<times> state + state" where
  "signal_phase cfg env s =
     (if is_user_force_reset env then Inr s
      else
        (case dload_key_check env s of
           Inl stop \<Rightarrow> Inl stop
         | Inr s1 \<Rightarrow>
             (let s2 = single_key_check env s1;
                  s3 = keypad_trigger cfg env s2
              in case apply_reboot_mode cfg env (read_reboot_mode cfg env) s3 of
                   Inl stop \<Rightarrow> Inl stop
                 | Inr s4 \<Rightarrow> Inr (force_fastboot cfg s4))))"

subsection \<open>Boot attempts (from \<open>normal_boot\<close> to the label \<open>fastboot\<close>)\<close>

definition signal_tamper :: "config \<Rightarrow> env \<Rightarrow> state \<Rightarrow> state" where
  "signal_tamper cfg env s =
     (if target_use_signed_kernel env
      then (if is_unlocked (device s) \<or> is_tampered (device s)
            then (let s1 = (if TZ_TAMPER_FUSE cfg then log SetTamperFuseCmd s else s)
                  in if USE_PCOM_SECBOOT cfg
                     then log (SetTamperFlag (is_tampered (device s1))) s1
                     else s1)
            else s)
      else s)"

definition retryable :: "boot_err \<Rightarrow> bool" where
  "retryable e \<longleftrightarrow>
     e = ERR_INVALID_PAGE_SIZE \<or> e = ERR_DT_PARSE \<or> e = ERR_ABOOT_ADDR_OVERLAP \<or>
     e = ERR_INVALID_BOOT_MAGIC"

definition bootable_count :: "slot_info list \<Rightarrow> nat" where
  "bootable_count tbl = length (filter bootable tbl)"

text \<open>
  The loop at the label \<open>retry_boot\<close>; \<open>n\<close> counts the load attempts made so far. The first
  component of the result is \<open>Some KernelStarted\<close> when \<open>boot_linux_from_mmc\<close> did not
  return and \<open>None\<close> when control goes on to the label \<open>fastboot\<close> (by the \<open>goto\<close> or by
  leaving the \<open>switch\<close>).
\<close>

function retry_boot ::
  "env \<Rightarrow> nat \<Rightarrow> nat option \<Rightarrow> state \<Rightarrow> outcome option \<times> state" where
  "retry_boot env n boot_slot s =
     (let boot_slot1 = (if partition_multislot_is_supported env
                        then partition_find_boot_slot (slots s) else boot_slot);
          s1 = (if partition_multislot_is_supported env
                then partition_mark_active_slot boot_slot1 s else s)
      in if partition_multislot_is_supported env \<and> boot_slot1 = None then (None, s1)
         else
           (let s2 = log (BootLinuxFromMmc boot_slot1) s1
            in case boot_linux_from_mmc env n boot_slot1 of
                 None \<Rightarrow> (Some KernelStarted, s2)
               | Some boot_err_type \<Rightarrow>
                   if retryable boot_err_type
                   then (if partition_multislot_is_supported env
                         then retry_boot env (Suc n) boot_slot1
                                (partition_deactivate_slot boot_slot1 s2)
                         else (None, s2))
                   else (None, s2)))"
  by pat_completeness auto

termination
proof (relation "measure (\<lambda>(env, n, boot_slot, s). bootable_count (slots s))")
  show "wf (measure (\<lambda>(env, n, boot_slot, s). bootable_count (slots s)))"
    by simp
next
  fix env :: env and n :: nat and boot_slot :: "nat option" and s :: state
    and boot_slot1 s1 s2 and boot_err_type :: boot_err
  assume b: "boot_slot1 = (if partition_multislot_is_supported env
                           then partition_find_boot_slot (slots s) else boot_slot)"
    and s1: "s1 = (if partition_multislot_is_supported env
                   then partition_mark_active_slot boot_slot1 s else s)"
    and ne: "\<not> (partition_multislot_is_supported env \<and> boot_slot1 = None)"
    and s2: "s2 = log (BootLinuxFromMmc boot_slot1) s1"
    and ms: "partition_multislot_is_supported env"
  from ms ne b obtain i where i: "partition_find_boot_slot (slots s) = Some i" "boot_slot1 = Some i"
    by auto
  have fi: "first_index P xs = Some k \<Longrightarrow> k < length xs \<and> P (xs ! k)"
    for P :: "slot_info \<Rightarrow> bool" and xs k
    by (induction xs arbitrary: k) (auto split: if_splits)
  from i(1) have ib: "i < length (slots s) \<and> bootable (slots s ! i)"
    by (auto simp: partition_find_boot_slot_def split: option.splits dest: fi)
  have ma: "length js = length xs \<Longrightarrow>
            map bootable (map (\<lambda>(j, sl). sl\<lparr>active := f j\<rparr>) (zip js xs)) = map bootable xs"
    for f :: "nat \<Rightarrow> bool" and js and xs :: "slot_info list"
    by (induction js xs rule: list_induct2) auto
  have cnt: "bootable_count xs = length (filter (\<lambda>b. b) (map bootable xs))" for xs
    by (simp add: bootable_count_def filter_map comp_def)
  have mb: "map bootable (mark_active sl xs) = map bootable xs" for sl xs
    unfolding mark_active_def using ma[of "[0..<length xs]" xs]
    by (auto split: option.splits simp del: map_map)
  have mk: "bootable_count (mark_active sl xs) = bootable_count xs" for sl xs
    by (simp only: cnt mb)
  have ml: "length (mark_active sl xs) = length xs" for sl xs
    by (simp add: mark_active_def split: option.splits)
  have mi: "k < length xs \<Longrightarrow> bootable (mark_active sl xs ! k) = bootable (xs ! k)" for sl xs k
    using mb[of sl xs] ml[of sl xs] by (metis nth_map)
  have de: "k < length xs \<Longrightarrow> bootable (xs ! k) \<Longrightarrow>
            length (filter bootable (xs[k := (xs ! k)\<lparr>bootable := False\<rparr>])) < length (filter bootable xs)"
    for xs :: "slot_info list" and k
  proof (induction xs arbitrary: k)
    case Nil
    then show ?case by simp
  next
    case (Cons x xs)
    then show ?case by (cases k) auto
  qed
  show "((env, Suc n, boot_slot1, partition_deactivate_slot boot_slot1 s2), (env, n, boot_slot, s))
          \<in> measure (\<lambda>(env, n, boot_slot, s). bootable_count (slots s))"
    using ib de[of i "mark_active (Some i) (slots s)"] mk[of "Some i" "slots s"] ms i
      ml[of "Some i" "slots s"] mi[of i "slots s" "Some i"]
    by (simp add: s1 s2 partition_deactivate_slot_def partition_mark_active_slot_def log_def
        deactivate_def bootable_count_def)
qed

declare retry_boot.simps [simp del]

definition lk2nd_boot :: "config \<Rightarrow> env \<Rightarrow> state \<Rightarrow> outcome \<times> state + state" where
  "lk2nd_boot cfg env s =
     (if WITH_LK2ND_BOOT cfg \<and> boot_into_recovery s = 0
      then (let s1 = log Lk2ndBoot s
            in if lk2nd_boot_returns env then Inr s1 else Inl (KernelStarted, s1))
      else Inr s)"

definition emmc_boot ::
  "config \<Rightarrow> env \<Rightarrow> nat option \<Rightarrow> state \<Rightarrow> outcome option \<times> state" where
  "emmc_boot cfg env boot_slot s =
     (let s1 = (if \<not> ABOOT_STANDALONE cfg then log EmmcRecoveryInit s else s);
          s2 = signal_tamper cfg env s1
      in retry_boot env 0 boot_slot s2)"

definition flash_boot :: "config \<Rightarrow> env \<Rightarrow> state \<Rightarrow> outcome option \<times> state" where
  "flash_boot cfg env s =
     (let s1 = (if \<not> ABOOT_STANDALONE cfg then log RecoveryInit s else s);
          s2 = (if USE_PCOM_SECBOOT cfg \<and> (is_unlocked (device s1) \<or> is_tampered (device s1))
                then log (SetTamperFlag (is_tampered (device s1))) s1
                else s1);
          s3 = log BootLinuxFromFlash s2
      in if boot_linux_from_flash_returns env then (None, s3) else (Some KernelStarted, s3))"

subsection \<open>The label \<open>fastboot\<close>\<close>

text \<open>The argument of \<open>FastbootInit\<close> tells whether the salt-buffer offsets were applied.\<close>

definition fastboot :: "config \<Rightarrow> env \<Rightarrow> state \<Rightarrow> outcome \<times> state" where
  "fastboot cfg env s =
     (let s1 = log AbootFastbootRegisterCommands (log FastbootRegisterCommands s);
          s2 = (if target_is_emmc_boot env then log PartitionDump s1 else s1);
          s3 = log (FastbootInit (VERIFIED_BOOT_2 cfg)) s2;
          s4 = (if FBCON_DISPLAY_MSG cfg \<or> WITH_LK2ND_DEVICE_MENU cfg
                then log DisplayFastbootMenu s3 else s3)
      in (FastbootStarted, s4))"

subsection \<open>The whole function\<close>

definition normal_boot ::
  "config \<Rightarrow> env \<Rightarrow> nat option \<Rightarrow> state \<Rightarrow> outcome \<times> state" where
  "normal_boot cfg env boot_slot s =
     (if \<not> boot_into_fastboot s
      then (case lk2nd_boot cfg env s of
              Inl stop \<Rightarrow> stop
            | Inr s1 \<Rightarrow>
                (case (if target_is_emmc_boot env
                       then emmc_boot cfg env boot_slot s1
                       else flash_boot cfg env s1) of
                   (Some out, s2) \<Rightarrow> (out, s2)
                 | (None, s2) \<Rightarrow> fastboot cfg env s2))
      else fastboot cfg env s)"

text \<open>From the test of \<open>is_user_force_reset\<close> to the end, entered in any state.\<close>

definition aboot_decide ::
  "config \<Rightarrow> env \<Rightarrow> nat option \<Rightarrow> state \<Rightarrow> outcome \<times> state" where
  "aboot_decide cfg env boot_slot s =
     (case signal_phase cfg env s of
        Inl stop \<Rightarrow> stop
      | Inr s1 \<Rightarrow> normal_boot cfg env boot_slot s1)"

text \<open>
  \<open>aboot_init\<close>, started with the globals \<open>g\<close>. \<open>None\<close>: the function neither returns nor
  hands over control (the display wait never ends).
\<close>

definition aboot_init :: "config \<Rightarrow> env \<Rightarrow> state \<Rightarrow> (outcome \<times> state) option" where
  "aboot_init cfg env g =
     (case aboot_setup cfg env g of
        None \<Rightarrow> None
      | Some (Inl stop) \<Rightarrow> Some stop
      | Some (Inr (boot_slot, s)) \<Rightarrow> Some (aboot_decide cfg env boot_slot s))"

text \<open>The events that \<open>aboot_init\<close> added to the trace between two states.\<close>

definition events_since :: "state \<Rightarrow> state \<Rightarrow> event list" where
  "events_since s s' = drop (length (trace s)) (trace s')"

text \<open>
  \<open>appends P s s'\<close>: the trace of \<open>s'\<close> is the trace of \<open>s\<close> followed by events that all
  satisfy \<open>P\<close>.
\<close>

definition appends :: "(event \<Rightarrow> bool) \<Rightarrow> state \<Rightarrow> state \<Rightarrow> bool" where
  "appends P s s' \<longleftrightarrow>
     take (length (trace s)) (trace s') = trace s \<and> list_all P (events_since s s')"

text \<open>
  When the policy step halts the boot: a failed write of the device record, or a failed
  request to delete the keys.
\<close>

definition policy_halts :: "config \<Rightarrow> env \<Rightarrow> bool" where
  "policy_halts cfg env \<longleftrightarrow>
     vb_policy_enabled cfg env \<and>
     (let r = read_reboot_mode cfg env
      in ((r = DM_VERITY_ENFORCING \<or> r = verity_logging_code cfg) \<and> write_device_info_fails env) \<or>
         (r = DM_VERITY_KEYSCLEAR \<and> send_delete_keys_to_tz env \<noteq> 0))"

text \<open>Both volume keys are down.\<close>

definition dload_keys :: "env \<Rightarrow> bool" where
  "dload_keys env \<longleftrightarrow> keys_get_state env KEY_VOLUMEUP \<and> keys_get_state env KEY_VOLUMEDOWN"

text \<open>
  The state in which the reset-reason register is read, when control gets there: after the
  key checks, with fastboot latched by a failed emergency reset.
\<close>

definition reg_state :: "config \<Rightarrow> env \<Rightarrow> state \<Rightarrow> state" where
  "reg_state cfg env s =
     keypad_trigger cfg env (single_key_check env
       (if dload_keys env then (log RebootDevice s)\<lparr>boot_into_fastboot := True\<rparr> else s))"

text \<open>The slots of a table that are marked bootable, in table order.\<close>

definition bootable_slots :: "slot_info list \<Rightarrow> nat list" where
  "bootable_slots tbl = filter (\<lambda>i. bootable (tbl ! i)) [0..<length tbl]"

text \<open>One failed round of the retry loop on slot \<open>i\<close>: select, load, deactivate.\<close>

definition attempt_events :: "nat \<Rightarrow> event list" where
  "attempt_events i =
     [MarkActiveSlot (Some i), BootLinuxFromMmc (Some i), DeactivateSlot (Some i)]"

definition is_boot_attempt :: "event \<Rightarrow> bool" where
  "is_boot_attempt e \<longleftrightarrow>
     (case e of BootLinuxFromMmc slot \<Rightarrow> True | BootLinuxFromFlash \<Rightarrow> True
      | Lk2ndBoot \<Rightarrow> True | _ \<Rightarrow> False)"

definition is_device_write :: "event \<Rightarrow> bool" where
  "is_device_write e \<longleftrightarrow> (case e of WriteDeviceInfo d \<Rightarrow> True | _ \<Rightarrow> False)"

definition is_tamper_signal :: "event \<Rightarrow> bool" where
  "is_tamper_signal e \<longleftrightarrow>
     (case e of SetTamperFuseCmd \<Rightarrow> True | SetTamperFlag b \<Rightarrow> True | _ \<Rightarrow> False)"

definition is_mmc_load :: "event \<Rightarrow> bool" where
  "is_mmc_load e \<longleftrightarrow> (case e of BootLinuxFromMmc slot \<Rightarrow> True | _ \<Rightarrow> False)"

text \<open>No load from eMMC comes before the first tamper signal.\<close>

fun tamper_first :: "event list \<Rightarrow> bool" where
  "tamper_first [] = True"
| "tamper_first (e # es) =
     (if is_tamper_signal e then True else if is_mmc_load e then False else tamper_first es)"

section \<open>The Signal Collector in the words of the specification\<close>

datatype reboot_intent =
    NoIntent | Recovery | Fastboot | EmergencyDownload | AlarmBoot
  | VerityEnforce | VerityLogging | VerityKeyClear

text \<open>
  The key signals alone, first match first: both volume keys (emergency download, degraded
  to fastboot when the reset request comes back), then the recovery key, then the fastboot
  keys.
\<close>

definition spec_key_intent :: "env \<Rightarrow> reboot_intent" where
  "spec_key_intent env =
     (if keys_get_state env KEY_VOLUMEUP \<and> keys_get_state env KEY_VOLUMEDOWN
      then (if reboot_device_returns env then Fastboot else EmergencyDownload)
      else if keys_get_state env KEY_VOLUMEUP then Recovery
      else if keys_get_state env KEY_HOME \<or> keys_get_state env KEY_BACK \<or>
              keys_get_state env KEY_VOLUMEDOWN
      then Fastboot
      else NoIntent)"

definition spec_reason_intent :: "config \<Rightarrow> reboot_reason \<Rightarrow> reboot_intent" where
  "spec_reason_intent cfg r =
     (if r = RECOVERY_MODE then Recovery
      else if r = FASTBOOT_MODE then Fastboot
      else if r = ALARM_BOOT then AlarmBoot
      else if r = DM_VERITY_ENFORCING then VerityEnforce
      else if r = verity_logging_code cfg then VerityLogging
      else if r = DM_VERITY_KEYSCLEAR then VerityKeyClear
      else NoIntent)"

text \<open>
  The precedence table of the specification: forced reset, then the keys, then the
  reset-reason register, which is consulted only if no key-based intent fired.
\<close>

definition spec_signal_collector :: "config \<Rightarrow> env \<Rightarrow> reboot_intent" where
  "spec_signal_collector cfg env =
     (if is_user_force_reset env then NoIntent
      else if spec_key_intent env \<noteq> NoIntent then spec_key_intent env
      else spec_reason_intent cfg (read_reboot_mode cfg env))"

section \<open>Concrete inputs\<close>

definition plain_config :: config where
  "plain_config =
     \<lparr>WDOG_SUPPORT = False, ABOOT_STANDALONE = False, WITH_LK2ND = True,
      DISPLAY_SPLASH_SCREEN = False, NO_ALARM_DISPLAY = False, DISPLAY_HDMI_PRIMARY = False,
      ENABLE_WBC = False, NO_KEYPAD_DRIVER = False, USE_PON_REBOOT_REG = False,
      VERIFIED_BOOT = True, VERIFIED_BOOT_2 = False, ENABLE_VB_ATTEST = False,
      LK2ND_FORCE_FASTBOOT = False, WITH_LK2ND_BOOT = False, TZ_TAMPER_FUSE = False,
      USE_PCOM_SECBOOT = False, FBCON_DISPLAY_MSG = False, WITH_LK2ND_DEVICE_MENU = False,
      VB_M = 1, MEMBASE = 0x8F600000, MEMSIZE = 0x00A00000,
      DISPLAY_PANEL_HDMI = ''hdmi'', display_panel_size = 64\<rparr>"

definition quiet_env :: env where
  "quiet_env =
     \<lparr>target_is_emmc_boot = True, mmc_page_size = 2048, mmc_get_device_blocksize = 512,
      flash_page_size = 2048, read_allow_oem_unlock = (\<lambda>d. d),
      partition_multislot_is_supported = False, lk2nd_init_serial = ''abc123'',
      check_alarm_boot = False, pm_app_display_shutdown_in_prgs = (\<lambda>k. False),
      pm_appsbl_display_init_done = False, target_serialno = ''abc123'',
      is_user_force_reset = False, keys_get_state = (\<lambda>k. False),
      reboot_device_returns = False, fastboot_trigger = False,
      check_hard_reboot_mode = OTHER_REASON, check_reboot_mode = OTHER_REASON,
      target_get_vb_version = 1, write_device_info_fails = False,
      send_delete_keys_to_tz = 0, lk2nd_boot_returns = True, emmc_recovery_init = 0,
      target_use_signed_kernel = True, boot_linux_from_mmc = (\<lambda>n slot. None),
      boot_linux_from_flash_returns = False\<rparr>"

definition locked_device :: device_info where
  "locked_device =
     \<lparr>is_unlocked = False, is_tampered = False, verity_mode = 0, display_panel = []\<rparr>"

definition cold_state :: state where
  "cold_state =
     \<lparr>page_size = 0, page_mask = 0, mmc_blocksize = 0, mmc_blocksize_mask = 0,
      device = locked_device, nv_device = locked_device, slots = [],
      boot_into_fastboot = False, boot_into_recovery = 0, boot_reason_alarm = False,
      sn_buf = [], display_panel_buf = [], trace = []\<rparr>"

text \<open>A two-slot table: slot 0 active, both slots bootable.\<close>

definition two_slots :: "slot_info list" where
  "two_slots = [\<lparr>active = True, bootable = True\<rparr>, \<lparr>active = False, bootable = True\<rparr>]"

text \<open>Multi-slot hardware on which every load attempt fails with a bad boot magic.\<close>

definition bad_magic_env :: env where
  "bad_magic_env =
     quiet_env\<lparr>partition_multislot_is_supported := True,
               boot_linux_from_mmc := (\<lambda>n slot. Some ERR_INVALID_BOOT_MAGIC)\<rparr>"

text \<open>The reset-reason register asks for enforcing mode.\<close>

definition enforcing_env :: env where
  "enforcing_env = quiet_env\<lparr>check_reboot_mode := DM_VERITY_ENFORCING\<rparr>"

text \<open>The same on a target below the minimum verified-boot version.\<close>

definition old_vb_env :: env where
  "old_vb_env = enforcing_env\<lparr>target_get_vb_version := 0\<rparr>"

text \<open>The same with a failing write of the device record.\<close>

definition write_fail_env :: env where
  "write_fail_env = enforcing_env\<lparr>write_device_info_fails := True\<rparr>"

text \<open>The same after a forced reset by the user.\<close>

definition forced_reset_env :: env where
  "forced_reset_env = enforcing_env\<lparr>is_user_force_reset := True\<rparr>"

text \<open>The register asks to clear the keys, and the trusted environment refuses.\<close>

definition keysclear_env :: env where
  "keysclear_env =
     quiet_env\<lparr>check_reboot_mode := DM_VERITY_KEYSCLEAR, send_delete_keys_to_tz := 1\<rparr>"

text \<open>Both volume keys down.\<close>

definition volume_keys :: "key \<Rightarrow> bool" where
  "volume_keys k \<longleftrightarrow> k = KEY_VOLUMEUP \<or> k = KEY_VOLUMEDOWN"

text \<open>
  Both volume keys down, the emergency reset request comes back, the register asks to clear
  the keys, and the trusted environment refuses.
\<close>

definition dload_keysclear_env :: env where
  "dload_keysclear_env =
     keysclear_env\<lparr>keys_get_state := volume_keys, reboot_device_returns := True\<rparr>"

text \<open>Multi-slot hardware, both volume keys down, the emergency reset succeeds.\<close>

definition dload_multislot_env :: env where
  "dload_multislot_env =
     quiet_env\<lparr>partition_multislot_is_supported := True, keys_get_state := volume_keys\<rparr>"

text \<open>A two-slot table in which no slot is marked active.\<close>

definition no_active_slots :: "slot_info list" where
  "no_active_slots = [\<lparr>active = False, bootable = True\<rparr>, \<lparr>active = False, bootable = True\<rparr>]"

text \<open>A build with the force-fastboot flag.\<close>

definition forced_fastboot_config :: config where
  "forced_fastboot_config = plain_config\<lparr>LK2ND_FORCE_FASTBOOT := True\<rparr>"

text \<open>A forced reset by the user and nothing else.\<close>

definition user_reset_env :: env where
  "user_reset_env = quiet_env\<lparr>is_user_force_reset := True\<rparr>"

text \<open>An unlocked device, in the globals and in non-volatile storage.\<close>

definition unlocked_state :: state where
  "unlocked_state =
     cold_state\<lparr>device := locked_device\<lparr>is_unlocked := True\<rparr>,
                nv_device := locked_device\<lparr>is_unlocked := True\<rparr>\<rparr>"

text \<open>A build with the tamper fuse.\<close>

definition tamper_fuse_config :: config where
  "tamper_fuse_config = plain_config\<lparr>TZ_TAMPER_FUSE := True\<rparr>"

text \<open>Only the volume-up key is down, and the register asks for fastboot.\<close>

definition recovery_key_env :: env where
  "recovery_key_env =
     quiet_env\<lparr>keys_get_state := (\<lambda>k. k = KEY_VOLUMEUP), check_reboot_mode := FASTBOOT_MODE\<rparr>"

text \<open>Only the volume-up key is down.\<close>

definition volume_up_env :: env where
  "volume_up_env = quiet_env\<lparr>keys_get_state := (\<lambda>k. k = KEY_VOLUMEUP)\<rparr>"

text \<open>Fastboot is already latched on entry, as after an \<open>INVALID\<close> active slot.\<close>

definition latched_state:: state where
  "latched_state = cold_state\<lparr>boot_into_fastboot := True\<rparr>"

section \<open>Lemmas\<close>

subsection \<open>The retry loop, case by case\<close>

lemma log_simps [simp]:
  "trace (log e s) = trace s @ [e]"
  "device (log e s) = device s"
  "nv_device (log e s) = nv_device s"
  "slots (log e s) = slots s"
  "boot_into_fastboot (log e s) = boot_into_fastboot s"
  "boot_into_recovery (log e s) = boot_into_recovery s"
  "boot_reason_alarm (log e s) = boot_reason_alarm s"
  by (simp_all add: log_def)

lemma retry_boot_single:
  "\<not> partition_multislot_is_supported env \<Longrightarrow>
   retry_boot env n b s =
     (case boot_linux_from_mmc env n b of
        None \<Rightarrow> (Some KernelStarted, log (BootLinuxFromMmc b) s)
      | Some e \<Rightarrow> (None, log (BootLinuxFromMmc b) s))"
  by (subst retry_boot.simps) (simp add: Let_def split: option.splits)

lemma retry_boot_exhausted:
  "partition_multislot_is_supported env \<Longrightarrow> partition_find_boot_slot (slots s) = None \<Longrightarrow>
   retry_boot env n b s = (None, partition_mark_active_slot None s)"
  by (subst retry_boot.simps) (simp add: Let_def)

lemma retry_boot_attempt:
  "partition_multislot_is_supported env \<Longrightarrow> partition_find_boot_slot (slots s) = Some i \<Longrightarrow>
   retry_boot env n b s =
     (case boot_linux_from_mmc env n (Some i) of
        None \<Rightarrow> (Some KernelStarted, log (BootLinuxFromMmc (Some i)) (partition_mark_active_slot (Some i) s))
      | Some e \<Rightarrow>
          if retryable e
          then retry_boot env (Suc n) (Some i)
                 (partition_deactivate_slot (Some i)
                    (log (BootLinuxFromMmc (Some i)) (partition_mark_active_slot (Some i) s)))
          else (None, log (BootLinuxFromMmc (Some i)) (partition_mark_active_slot (Some i) s)))"
  by (subst retry_boot.simps) (simp add: Let_def split: option.splits)

lemma retry_boot_induct [case_names step]:
  assumes "\<And>env n b s.
     (\<And>i e. partition_multislot_is_supported env \<Longrightarrow>
             partition_find_boot_slot (slots s) = Some i \<Longrightarrow>
             boot_linux_from_mmc env n (Some i) = Some e \<Longrightarrow> retryable e \<Longrightarrow>
             P env (Suc n) (Some i)
               (partition_deactivate_slot (Some i)
                  (log (BootLinuxFromMmc (Some i)) (partition_mark_active_slot (Some i) s))))
     \<Longrightarrow> P (env :: env) (n :: nat) (b :: nat option) (s :: state)"
  shows "P env n b s"
proof (induction env n b s rule: retry_boot.induct)
  case (1 env n boot_slot s)
  show ?case
  proof (rule assms)
    fix i e
    assume a: "partition_multislot_is_supported env" "partition_find_boot_slot (slots s) = Some i"
      "boot_linux_from_mmc env n (Some i) = Some e" "retryable e"
    show "P env (Suc n) (Some i)
               (partition_deactivate_slot (Some i)
                  (log (BootLinuxFromMmc (Some i)) (partition_mark_active_slot (Some i) s)))"
      using "1.IH"[OF refl refl _ refl, of e] a by simp
  qed
qed

subsection \<open>The slot table\<close>

lemma first_index_Some: "first_index P xs = Some k \<Longrightarrow> k < length xs \<and> P (xs ! k)"
  by (induction xs arbitrary: k) (auto split: if_splits)

lemma first_index_None: "first_index P xs = None \<Longrightarrow> x \<in> set xs \<Longrightarrow> \<not> P x"
  by (induction xs) (auto split: if_splits)

lemma bootable_slots_iff: "i \<in> set (bootable_slots tbl) \<longleftrightarrow> i < length tbl \<and> bootable (tbl ! i)"
  by (auto simp: bootable_slots_def)

lemma bootable_slots_empty: "bootable_slots tbl = [] \<longleftrightarrow> (\<forall>sl \<in> set tbl. \<not> bootable sl)"
  unfolding bootable_slots_def filter_empty_conv
  by (metis atLeastLessThan_iff in_set_conv_nth set_upt zero_le)

lemma find_boot_slot_Some:
  "partition_find_boot_slot tbl = Some i \<Longrightarrow> i \<in> set (bootable_slots tbl)"
  by (auto simp: partition_find_boot_slot_def bootable_slots_iff split: option.splits
      dest: first_index_Some)

lemma find_boot_slot_None: "partition_find_boot_slot tbl = None \<Longrightarrow> bootable_slots tbl = []"
  by (auto simp: partition_find_boot_slot_def bootable_slots_empty split: option.splits
      dest: first_index_None)

lemma length_mark_active [simp]: "length (mark_active slot tbl) = length tbl"
  by (simp add: mark_active_def split: option.splits)

lemma bootable_mark_active [simp]:
  "i < length tbl \<Longrightarrow> bootable (mark_active slot tbl ! i) = bootable (tbl ! i)"
  by (simp add: mark_active_def split: option.splits)

lemma bootable_slots_mark_active [simp]:
  "bootable_slots (mark_active slot tbl) = bootable_slots tbl"
  by (auto simp: bootable_slots_def intro: filter_cong)

lemma length_deactivate [simp]: "length (deactivate slot tbl) = length tbl"
  by (simp add: deactivate_def split: option.splits)

lemma set_bootable_slots_deactivate:
  "set (bootable_slots (deactivate (Some i) tbl)) = set (bootable_slots tbl) - {i}"
  by (auto simp: bootable_slots_def deactivate_def nth_list_update)

lemma mark_active_state [simp]:
  "trace (partition_mark_active_slot slot s) = trace s @ [MarkActiveSlot slot]"
  "slots (partition_mark_active_slot slot s) = mark_active slot (slots s)"
  by (simp_all add: partition_mark_active_slot_def)

lemma deactivate_state [simp]:
  "trace (partition_deactivate_slot slot s) = trace s @ [DeactivateSlot slot]"
  "slots (partition_deactivate_slot slot s) = deactivate slot (slots s)"
  by (simp_all add: partition_deactivate_slot_def)

lemma mark_active_None [simp]: "mark_active None tbl = tbl"
  by (simp add: mark_active_def)

subsection \<open>Traces\<close>

lemma appendsI: "trace s' = trace s @ ev \<Longrightarrow> list_all P ev \<Longrightarrow> appends P s s'"
  by (simp add: appends_def events_since_def)

lemma appendsE:
  assumes "appends P s s'"
  obtains ev where "trace s' = trace s @ ev" "list_all P ev" "events_since s s' = ev"
proof -
  from assms have "trace s' = trace s @ events_since s s'"
    unfolding appends_def events_since_def by (metis append_take_drop_id)
  with assms that show thesis
    by (simp add: appends_def)
qed

lemma appends_refl [simp]: "appends P s s"
  by (rule appendsI[where ev = "[]"]) simp_all

lemma appends_trans:
  assumes "appends P s s'" and "appends P s' s''"
  shows "appends P s s''"
proof -
  from assms(1) obtain ev where 1: "trace s' = trace s @ ev" "list_all P ev" by (rule appendsE)
  from assms(2) obtain ev' where 2: "trace s'' = trace s' @ ev'" "list_all P ev'" by (rule appendsE)
  show ?thesis
    by (rule appendsI[where ev = "ev @ ev'"]) (simp_all add: 1 2)
qed

lemma appends_log:
  assumes "P e" and "appends P s s'"
  shows "appends P s (log e s')"
proof -
  from assms(2) obtain ev where 1: "trace s' = trace s @ ev" "list_all P ev" by (rule appendsE)
  show ?thesis
    by (rule appendsI[where ev = "ev @ [e]"]) (simp_all add: 1 assms(1))
qed

lemma appends_mono:
  assumes "appends P s s'" and "\<And>e. P e \<Longrightarrow> Q e"
  shows "appends Q s s'"
proof -
  from assms(1) obtain ev where 1: "trace s' = trace s @ ev" "list_all P ev" by (rule appendsE)
  from 1(2) assms(2) have "list_all Q ev" by (auto simp: list_all_iff)
  with 1(1) show ?thesis by (rule appendsI)
qed

lemma appends_same_trace: "trace s' = trace s \<Longrightarrow> appends P s s'"
  by (rule appendsI[where ev = "[]"]) simp_all

lemma appends_events: "appends P s s' \<Longrightarrow> \<forall>e \<in> set (events_since s s'). P e"
  by (simp add: appends_def list_all_iff)

lemma events_since_trans:
  assumes "appends P s s'" and "appends Q s' s''"
  shows "events_since s s'' = events_since s s' @ events_since s' s''"
proof -
  from assms(1) obtain ev where 1: "trace s' = trace s @ ev" by (rule appendsE)
  from assms(2) obtain ev' where 2: "trace s'' = trace s' @ ev'" by (rule appendsE)
  show ?thesis by (simp add: events_since_def 1 2)
qed

lemma events_since_append: "trace s' = trace s @ ev \<Longrightarrow> events_since s s' = ev"
  by (simp add: events_since_def)

lemma event_kinds [simp]:
  "is_boot_attempt (BootLinuxFromMmc slot)" "is_boot_attempt BootLinuxFromFlash"
  "is_boot_attempt Lk2ndBoot"
  "\<not> is_boot_attempt RebootDevice" "\<not> is_boot_attempt (WriteDeviceInfo d)"
  "\<not> is_boot_attempt SendDeleteKeysToTz" "\<not> is_boot_attempt (MarkActiveSlot slot)"
  "\<not> is_boot_attempt (DeactivateSlot slot)" "\<not> is_boot_attempt EmmcRecoveryInit"
  "\<not> is_boot_attempt RecoveryInit" "\<not> is_boot_attempt SetTamperFuseCmd"
  "\<not> is_boot_attempt (SetTamperFlag b)" "\<not> is_boot_attempt FastbootRegisterCommands"
  "\<not> is_boot_attempt AbootFastbootRegisterCommands" "\<not> is_boot_attempt PartitionDump"
  "\<not> is_boot_attempt (FastbootInit b)" "\<not> is_boot_attempt DisplayFastbootMenu"
  "\<not> is_boot_attempt MsmWdogInit" "\<not> is_boot_attempt Lk2ndInit"
  "\<not> is_boot_attempt (TargetDisplayInit p)" "\<not> is_boot_attempt DisplayImageOnScreen"
  "\<not> is_boot_attempt TargetSerialno"
  "is_device_write (WriteDeviceInfo d)"
  "\<not> is_device_write RebootDevice" "\<not> is_device_write SendDeleteKeysToTz"
  "\<not> is_device_write (MarkActiveSlot slot)" "\<not> is_device_write (DeactivateSlot slot)"
  "\<not> is_device_write (BootLinuxFromMmc slot)" "\<not> is_device_write BootLinuxFromFlash"
  "\<not> is_device_write Lk2ndBoot" "\<not> is_device_write EmmcRecoveryInit"
  "\<not> is_device_write RecoveryInit" "\<not> is_device_write SetTamperFuseCmd"
  "\<not> is_device_write (SetTamperFlag b)" "\<not> is_device_write FastbootRegisterCommands"
  "\<not> is_device_write AbootFastbootRegisterCommands" "\<not> is_device_write PartitionDump"
  "\<not> is_device_write (FastbootInit b)" "\<not> is_device_write DisplayFastbootMenu"
  "is_tamper_signal SetTamperFuseCmd" "is_tamper_signal (SetTamperFlag b)"
  "\<not> is_tamper_signal RebootDevice" "\<not> is_tamper_signal (WriteDeviceInfo d)"
  "\<not> is_tamper_signal SendDeleteKeysToTz" "\<not> is_tamper_signal (MarkActiveSlot slot)"
  "\<not> is_tamper_signal (DeactivateSlot slot)" "\<not> is_tamper_signal (BootLinuxFromMmc slot)"
  "\<not> is_tamper_signal Lk2ndBoot" "\<not> is_tamper_signal EmmcRecoveryInit"
  by (simp_all add: is_boot_attempt_def is_device_write_def is_tamper_signal_def)

subsection \<open>The label \<open>fastboot\<close> and the policy step\<close>

lemma fastboot_outcome: "fst (fastboot cfg env s) = FastbootStarted"
  by (simp add: fastboot_def Let_def)

lemma fastboot_appends:
  "appends (\<lambda>e. \<not> is_boot_attempt e \<and> \<not> is_device_write e) s (snd (fastboot cfg env s))"
  by (simp add: fastboot_def Let_def appends_log)

lemma fastboot_device:
  "device (snd (fastboot cfg env s)) = device s" "nv_device (snd (fastboot cfg env s)) = nv_device s"
  by (simp_all add: fastboot_def Let_def)

lemma write_device_info_cases:
  "write_device_info env s =
     (if write_device_info_fails env then Inl (Halted, log (WriteDeviceInfo (device s)) s)
      else Inr ((log (WriteDeviceInfo (device s)) s)\<lparr>nv_device := device s\<rparr>))"
  by (simp add: write_device_info_def Let_def)

lemma appends_nv [simp]: "appends P s (s'\<lparr>nv_device := d\<rparr>) = appends P s s'"
  by (simp add: appends_def events_since_def)

lemma appends_bif [simp]: "appends P s (s'\<lparr>boot_into_fastboot := d\<rparr>) = appends P s s'"
  by (simp add: appends_def events_since_def)

lemma appends_bir [simp]: "appends P s (s'\<lparr>boot_into_recovery := r\<rparr>) = appends P s s'"
  by (simp add: appends_def events_since_def)

lemma appends_bra [simp]: "appends P s (s'\<lparr>boot_reason_alarm := r\<rparr>) = appends P s s'"
  by (simp add: appends_def events_since_def)

lemma appends_dev [simp]: "appends P s (s'\<lparr>device := r\<rparr>) = appends P s s'"
  by (simp add: appends_def events_since_def)

lemma appends_slots [simp]: "appends P s (s'\<lparr>slots := r\<rparr>) = appends P s s'"
  by (simp add: appends_def events_since_def)

lemma policy_halts_iff:
  "isl (apply_reboot_mode cfg env (read_reboot_mode cfg env) s) \<longleftrightarrow> policy_halts cfg env"
  by (auto simp: apply_reboot_mode_def policy_halts_def write_device_info_cases Let_def
      verity_logging_code_def)

lemma apply_reboot_mode_Inl:
  assumes "apply_reboot_mode cfg env r s = Inl (out, s')"
  shows "out = Halted" "appends (\<lambda>e. \<not> is_boot_attempt e \<and> \<not> is_tamper_signal e) s s'"
    "nv_device s' = nv_device s" "length (filter is_device_write (events_since s s')) \<le> 1"
  using assms
  by (auto simp: apply_reboot_mode_def write_device_info_cases Let_def appends_log
      events_since_def split: if_splits)

lemma apply_reboot_mode_Inr:
  assumes "apply_reboot_mode cfg env r s = Inr s'"
  shows "appends (\<lambda>e. \<not> is_boot_attempt e \<and> \<not> is_tamper_signal e) s s'"
    "boot_into_fastboot s \<Longrightarrow> boot_into_fastboot s'"
    "is_unlocked (device s') = is_unlocked (device s)"
    "is_tampered (device s') = is_tampered (device s)"
    "length (filter is_device_write (events_since s s')) \<le> 1"
  using assms
  by (auto simp: apply_reboot_mode_def write_device_info_cases Let_def appends_log
      events_since_def split: if_splits)

subsection \<open>Signals\<close>

lemma dload_key_check_cases:
  "dload_key_check env s =
     (if dload_keys env
      then (if reboot_device_returns env
            then Inr ((log RebootDevice s)\<lparr>boot_into_fastboot := True\<rparr>)
            else Inl (DloadReset, log RebootDevice s))
      else Inr s)"
  by (simp add: dload_key_check_def dload_keys_def Let_def)

lemma single_key_check_frame [simp]:
  "trace (single_key_check env s) = trace s"
  "device (single_key_check env s) = device s"
  "nv_device (single_key_check env s) = nv_device s"
  "boot_into_fastboot s \<Longrightarrow> boot_into_fastboot (single_key_check env s)"
  by (simp_all add: single_key_check_def Let_def)

lemma keypad_trigger_frame [simp]:
  "trace (keypad_trigger cfg env s) = trace s"
  "device (keypad_trigger cfg env s) = device s"
  "nv_device (keypad_trigger cfg env s) = nv_device s"
  "boot_into_fastboot s \<Longrightarrow> boot_into_fastboot (keypad_trigger cfg env s)"
  by (simp_all add: keypad_trigger_def)

lemma force_fastboot_frame [simp]:
  "trace (force_fastboot cfg s) = trace s"
  "device (force_fastboot cfg s) = device s"
  "nv_device (force_fastboot cfg s) = nv_device s"
  "boot_into_fastboot s \<Longrightarrow> boot_into_fastboot (force_fastboot cfg s)"
  "LK2ND_FORCE_FASTBOOT cfg \<Longrightarrow> boot_into_fastboot (force_fastboot cfg s)"
  by (simp_all add: force_fastboot_def)

lemma appends_cong_trace: "trace s'' = trace s' \<Longrightarrow> appends P s s' \<Longrightarrow> appends P s s''"
  by (simp add: appends_def events_since_def)

lemma events_since_cong_trace:
  "trace s'' = trace s' \<Longrightarrow> events_since s s'' = events_since s s'"
  "trace s'' = trace s' \<Longrightarrow> events_since s'' s = events_since s' s"
  by (simp_all add: events_since_def)

lemma signal_phase_cases:
  "signal_phase cfg env s =
     (if is_user_force_reset env then Inr s
      else if dload_keys env \<and> \<not> reboot_device_returns env
      then Inl (DloadReset, log RebootDevice s)
      else (case apply_reboot_mode cfg env (read_reboot_mode cfg env)
                  (keypad_trigger cfg env (single_key_check env
                     (if dload_keys env then (log RebootDevice s)\<lparr>boot_into_fastboot := True\<rparr>
                      else s))) of
              Inl stop \<Rightarrow> Inl stop
            | Inr s4 \<Rightarrow> Inr (force_fastboot cfg s4)))"
  by (simp add: signal_phase_def dload_key_check_cases Let_def)

lemma signal_phase_isl:
  "isl (signal_phase cfg env s) \<longleftrightarrow>
     \<not> is_user_force_reset env \<and>
     ((dload_keys env \<and> \<not> reboot_device_returns env) \<or> policy_halts cfg env)"
  unfolding signal_phase_cases policy_halts_iff[symmetric, of cfg env "keypad_trigger cfg env (single_key_check env
                     (if dload_keys env then (log RebootDevice s)\<lparr>boot_into_fastboot := True\<rparr>
                      else s))"]
  by (auto split: sum.splits)

lemma signal_phase_Inl:
  assumes "signal_phase cfg env s = Inl (out, s')"
  shows "\<not> is_user_force_reset env"
    "out = (if dload_keys env \<and> \<not> reboot_device_returns env then DloadReset else Halted)"
    "appends (\<lambda>e. \<not> is_boot_attempt e \<and> \<not> is_tamper_signal e) s s'"
proof -
  let ?k = "keypad_trigger cfg env (single_key_check env
              (if dload_keys env then (log RebootDevice s)\<lparr>boot_into_fastboot := True\<rparr> else s))"
  let ?P = "\<lambda>e. \<not> is_boot_attempt e \<and> \<not> is_tamper_signal e"
  have k: "appends ?P s ?k"
    by (rule appends_cong_trace[where s' = "if dload_keys env then log RebootDevice s else s"])
      (simp_all add: appends_log)
  show "\<not> is_user_force_reset env"
    using assms by (auto simp: signal_phase_cases)
  show "out = (if dload_keys env \<and> \<not> reboot_device_returns env then DloadReset else Halted)"
    using assms
    by (auto simp: signal_phase_cases split: if_splits sum.splits dest: apply_reboot_mode_Inl(1))
  show "appends ?P s s'"
  proof (cases "dload_keys env \<and> \<not> reboot_device_returns env")
    case True
    with assms \<open>\<not> is_user_force_reset env\<close> have "s' = log RebootDevice s"
      by (simp add: signal_phase_cases)
    then show ?thesis by (simp add: appends_log)
  next
    case False
    with assms \<open>\<not> is_user_force_reset env\<close>
    have "apply_reboot_mode cfg env (read_reboot_mode cfg env) ?k = Inl (out, s')"
      by (auto simp: signal_phase_cases split: sum.splits if_splits)
    from k apply_reboot_mode_Inl(2)[OF this] show ?thesis by (rule appends_trans)
  qed
qed

lemma signal_phase_Inr:
  assumes "signal_phase cfg env s = Inr s'"
  shows "appends (\<lambda>e. \<not> is_boot_attempt e \<and> \<not> is_tamper_signal e) s s'"
    "boot_into_fastboot s \<Longrightarrow> boot_into_fastboot s'"
    "\<not> is_user_force_reset env \<Longrightarrow> LK2ND_FORCE_FASTBOOT cfg \<or> dload_keys env \<Longrightarrow>
       boot_into_fastboot s'"
    "is_unlocked (device s') = is_unlocked (device s)"
    "is_tampered (device s') = is_tampered (device s)"
proof -
  let ?k = "keypad_trigger cfg env (single_key_check env
              (if dload_keys env then (log RebootDevice s)\<lparr>boot_into_fastboot := True\<rparr> else s))"
  let ?P = "\<lambda>e. \<not> is_boot_attempt e \<and> \<not> is_tamper_signal e"
  have k: "appends ?P s ?k"
    by (rule appends_cong_trace[where s' = "if dload_keys env then log RebootDevice s else s"])
      (simp_all add: appends_log)
  have kf: "boot_into_fastboot s \<or> dload_keys env \<Longrightarrow> boot_into_fastboot ?k"
    by auto
  have kd: "device ?k = device s" by simp
  consider (force) "is_user_force_reset env" "s' = s"
    | (reg) s4 where "\<not> is_user_force_reset env"
        "apply_reboot_mode cfg env (read_reboot_mode cfg env) ?k = Inr s4"
        "s' = force_fastboot cfg s4"
    using assms by (auto simp: signal_phase_cases split: if_splits sum.splits)
  note c = this
  show "appends ?P s s'"
  proof (cases rule: c)
    case force
    then show ?thesis by simp
  next
    case reg
    have "appends ?P s s4"
      using k apply_reboot_mode_Inr(1)[OF reg(2)] by (rule appends_trans)
    then show ?thesis
      unfolding reg(3) by (rule appends_cong_trace[rotated]) simp
  qed
  show "boot_into_fastboot s'" if "boot_into_fastboot s"
  proof (cases rule: c)
    case force
    with that show ?thesis by simp
  next
    case reg
    from that kf have "boot_into_fastboot ?k" by blast
    from apply_reboot_mode_Inr(2)[OF reg(2) this] show ?thesis by (simp add: reg(3))
  qed
  show "boot_into_fastboot s'"
    if "\<not> is_user_force_reset env" "LK2ND_FORCE_FASTBOOT cfg \<or> dload_keys env"
  proof (cases rule: c)
    case force
    with that show ?thesis by simp
  next
    case reg
    show ?thesis
    proof (cases "LK2ND_FORCE_FASTBOOT cfg")
      case True
      then show ?thesis by (simp add: reg(3))
    next
      case False
      with that kf have "boot_into_fastboot ?k" by blast
      from apply_reboot_mode_Inr(2)[OF reg(2) this] show ?thesis by (simp add: reg(3))
    qed
  qed
  show "is_unlocked (device s') = is_unlocked (device s)"
    by (cases rule: c) (simp_all add: apply_reboot_mode_Inr(3) kd)
  show "is_tampered (device s') = is_tampered (device s)"
    by (cases rule: c) (simp_all add: apply_reboot_mode_Inr(4) kd)
qed

lemma normal_boot_latched:
  "boot_into_fastboot s \<Longrightarrow> normal_boot cfg env b s = fastboot cfg env s"
  by (simp add: normal_boot_def)

text \<open>Once fastboot is latched, no boot is attempted.\<close>

lemma decide_latched:
  assumes "boot_into_fastboot s \<or>
           (\<not> is_user_force_reset env \<and> (LK2ND_FORCE_FASTBOOT cfg \<or> dload_keys env))"
  shows "fst (aboot_decide cfg env b s) =
           (if \<not> is_user_force_reset env \<and> dload_keys env \<and> \<not> reboot_device_returns env
            then DloadReset
            else if \<not> is_user_force_reset env \<and> policy_halts cfg env then Halted
            else FastbootStarted)"
    and "appends (\<lambda>e. \<not> is_boot_attempt e) s (snd (aboot_decide cfg env b s))"
proof -
  show "fst (aboot_decide cfg env b s) =
           (if \<not> is_user_force_reset env \<and> dload_keys env \<and> \<not> reboot_device_returns env
            then DloadReset
            else if \<not> is_user_force_reset env \<and> policy_halts cfg env then Halted
            else FastbootStarted)"
  proof (cases "signal_phase cfg env s")
    case (Inl stop)
    obtain out s' where stop: "stop = (out, s')" by (cases stop)
    from signal_phase_isl[of cfg env s] Inl
    have "\<not> is_user_force_reset env \<and>
          ((dload_keys env \<and> \<not> reboot_device_returns env) \<or> policy_halts cfg env)"
      by simp
    with signal_phase_Inl(2)[OF Inl[unfolded stop]] show ?thesis
      by (auto simp: aboot_decide_def Inl stop)
  next
    case (Inr s1)
    from signal_phase_isl[of cfg env s] Inr
    have n: "\<not> (\<not> is_user_force_reset env \<and>
          ((dload_keys env \<and> \<not> reboot_device_returns env) \<or> policy_halts cfg env))"
      by simp
    have "boot_into_fastboot s1"
      using assms signal_phase_Inr(2,3)[OF Inr] by blast
    then show ?thesis
      using n by (auto simp: aboot_decide_def Inr normal_boot_latched fastboot_outcome)
  qed
  show "appends (\<lambda>e. \<not> is_boot_attempt e) s (snd (aboot_decide cfg env b s))"
  proof (cases "signal_phase cfg env s")
    case (Inl stop)
    obtain out s' where stop: "stop = (out, s')" by (cases stop)
    from signal_phase_Inl(3)[OF Inl[unfolded stop]] show ?thesis
      by (auto simp: aboot_decide_def Inl stop elim: appends_mono)
  next
    case (Inr s1)
    have "boot_into_fastboot s1"
      using assms signal_phase_Inr(2,3)[OF Inr] by blast
    then have d: "aboot_decide cfg env b s = fastboot cfg env s1"
      by (simp add: aboot_decide_def Inr normal_boot_latched)
    have "appends (\<lambda>e. \<not> is_boot_attempt e) s s1"
      using signal_phase_Inr(1)[OF Inr] by (rule appends_mono) simp
    moreover have "appends (\<lambda>e. \<not> is_boot_attempt e) s1 (snd (fastboot cfg env s1))"
      using fastboot_appends[of s1 cfg env] by (rule appends_mono) simp
    ultimately show ?thesis
      unfolding d by (rule appends_trans)
  qed
qed

subsection \<open>Boot attempts and device writes\<close>

lemma partition_state_frame [simp]:
  "device (partition_mark_active_slot slot s) = device s"
  "nv_device (partition_mark_active_slot slot s) = nv_device s"
  "boot_into_fastboot (partition_mark_active_slot slot s) = boot_into_fastboot s"
  "device (partition_deactivate_slot slot s) = device s"
  "nv_device (partition_deactivate_slot slot s) = nv_device s"
  by (simp_all add: partition_mark_active_slot_def partition_deactivate_slot_def)

lemma appends_step:
  "appends P s s' \<Longrightarrow> trace s'' = trace s' @ [e] \<Longrightarrow> P e \<Longrightarrow> appends P s s''"
  by (rule appends_trans[where s' = s']) (auto intro: appendsI[where ev = "[e]"])

lemma retry_boot_frame:
  "device (snd (retry_boot env n b s)) = device s \<and>
   nv_device (snd (retry_boot env n b s)) = nv_device s \<and>
   appends (\<lambda>e. \<not> is_device_write e \<and> \<not> is_tamper_signal e \<and> e \<noteq> Lk2ndBoot) s
     (snd (retry_boot env n b s))"
proof (induction env n b s rule: retry_boot_induct)
  case (step env n b s)
  let ?P = "\<lambda>e. \<not> is_device_write e \<and> \<not> is_tamper_signal e \<and> e \<noteq> Lk2ndBoot"
  show ?case
  proof (cases "partition_multislot_is_supported env")
    case False
    have "appends ?P s (log (BootLinuxFromMmc b) s)"
      by (rule appends_log) simp_all
    then show ?thesis
      by (simp add: retry_boot_single[OF False] split: option.splits)
  next
    case ms: True
    show ?thesis
    proof (cases "partition_find_boot_slot (slots s)")
      case None
      have "appends ?P s (partition_mark_active_slot None s)"
        by (rule appends_step[where s' = s and e = "MarkActiveSlot None"]) simp_all
      then show ?thesis
        by (simp add: retry_boot_exhausted[OF ms None])
    next
      case (Some i)
      let ?s2 = "log (BootLinuxFromMmc (Some i)) (partition_mark_active_slot (Some i) s)"
      let ?s3 = "partition_deactivate_slot (Some i) ?s2"
      have a1: "appends ?P s (partition_mark_active_slot (Some i) s)"
        by (rule appends_step[where s' = s and e = "MarkActiveSlot (Some i)"]) simp_all
      have a2: "appends ?P s ?s2"
        using _ a1 by (rule appends_log) simp
      have a3: "appends ?P s ?s3"
        using a2 by (rule appends_step[where e = "DeactivateSlot (Some i)"]) simp_all
      show ?thesis
      proof (cases "boot_linux_from_mmc env n (Some i)")
        case None
        then show ?thesis
          using a2 by (simp add: retry_boot_attempt[OF ms Some])
      next
        case e: (Some e)
        show ?thesis
        proof (cases "retryable e")
          case False
          then show ?thesis
            using a2 by (simp add: retry_boot_attempt[OF ms Some] e)
        next
          case True
          have r: "retry_boot env n b s = retry_boot env (Suc n) (Some i) ?s3"
            by (simp add: retry_boot_attempt[OF ms Some] e True)
          from step[OF ms Some e True] a3 show ?thesis
            unfolding r by (auto intro: appends_trans)
        qed
      qed
    qed
  qed
qed

lemma signal_tamper_frame [simp]:
  "device (signal_tamper cfg env s) = device s"
  "nv_device (signal_tamper cfg env s) = nv_device s"
  by (simp_all add: signal_tamper_def Let_def)

lemma signal_tamper_appends:
  "appends (\<lambda>e. \<not> is_device_write e \<and> \<not> is_boot_attempt e) s (signal_tamper cfg env s)"
  by (simp add: signal_tamper_def Let_def appends_log)

lemma emmc_boot_frame:
  "device (snd (emmc_boot cfg env b s)) = device s"
  "nv_device (snd (emmc_boot cfg env b s)) = nv_device s"
  "appends (\<lambda>e. \<not> is_device_write e) s (snd (emmc_boot cfg env b s))"
proof -
  let ?s1 = "if \<not> ABOOT_STANDALONE cfg then log EmmcRecoveryInit s else s"
  let ?s2 = "signal_tamper cfg env ?s1"
  have e: "emmc_boot cfg env b s = retry_boot env 0 b ?s2"
    by (simp add: emmc_boot_def Let_def)
  show "device (snd (emmc_boot cfg env b s)) = device s"
    "nv_device (snd (emmc_boot cfg env b s)) = nv_device s"
    unfolding e by (simp_all add: retry_boot_frame)
  have "appends (\<lambda>e. \<not> is_device_write e) s ?s1"
    by (simp add: appends_log)
  moreover have "appends (\<lambda>e. \<not> is_device_write e) ?s1 ?s2"
    using signal_tamper_appends[of ?s1 cfg env] by (rule appends_mono) simp
  moreover have "appends (\<lambda>e. \<not> is_device_write e) ?s2 (snd (retry_boot env 0 b ?s2))"
    using retry_boot_frame[of env 0 b ?s2] by (auto elim: appends_mono)
  ultimately show "appends (\<lambda>e. \<not> is_device_write e) s (snd (emmc_boot cfg env b s))"
    unfolding e by (blast intro: appends_trans)
qed

lemma flash_boot_frame:
  "device (snd (flash_boot cfg env s)) = device s"
  "nv_device (snd (flash_boot cfg env s)) = nv_device s"
  "appends (\<lambda>e. \<not> is_device_write e) s (snd (flash_boot cfg env s))"
  by (simp_all add: flash_boot_def Let_def appends_log)

lemma lk2nd_boot_frame:
  "lk2nd_boot cfg env s = Inl (out, s') \<Longrightarrow>
     device s' = device s \<and> nv_device s' = nv_device s \<and> appends (\<lambda>e. \<not> is_device_write e) s s'"
  "lk2nd_boot cfg env s = Inr s' \<Longrightarrow>
     device s' = device s \<and> nv_device s' = nv_device s \<and> appends (\<lambda>e. \<not> is_device_write e) s s'"
  by (auto simp: lk2nd_boot_def Let_def appends_log split: if_splits)

lemma fastboot_no_write:
  "appends (\<lambda>e. \<not> is_device_write e) s (snd (fastboot cfg env s))"
  using fastboot_appends[of s cfg env] by (rule appends_mono) simp

lemma normal_boot_frame:
  "device (snd (normal_boot cfg env b s)) = device s"
  "nv_device (snd (normal_boot cfg env b s)) = nv_device s"
  "appends (\<lambda>e. \<not> is_device_write e) s (snd (normal_boot cfg env b s))"
proof -
  let ?W = "\<lambda>e. \<not> is_device_write e"
  have "device (snd (normal_boot cfg env b s)) = device s \<and>
        nv_device (snd (normal_boot cfg env b s)) = nv_device s \<and>
        appends ?W s (snd (normal_boot cfg env b s))"
  proof (cases "boot_into_fastboot s")
    case True
    then show ?thesis
      by (simp add: normal_boot_latched fastboot_device fastboot_no_write)
  next
    case nf: False
    show ?thesis
    proof (cases "lk2nd_boot cfg env s")
      case (Inl stop)
      obtain out s' where stop: "stop = (out, s')" by (cases stop)
      from lk2nd_boot_frame(1)[OF Inl[unfolded stop]] show ?thesis
        by (simp add: normal_boot_def nf Inl stop)
    next
      case (Inr s1)
      note l = lk2nd_boot_frame(2)[OF Inr]
      define r where "r = (if target_is_emmc_boot env then emmc_boot cfg env b s1
                           else flash_boot cfg env s1)"
      have rf: "device (snd r) = device s1" "nv_device (snd r) = nv_device s1"
        "appends ?W s1 (snd r)"
        by (simp_all add: r_def emmc_boot_frame flash_boot_frame)
      have n: "normal_boot cfg env b s =
                 (case r of (Some out, s2) \<Rightarrow> (out, s2) | (None, s2) \<Rightarrow> fastboot cfg env s2)"
        by (simp add: normal_boot_def nf Inr r_def)
      obtain ro s2 where r: "r = (ro, s2)" by (cases r)
      have a: "appends ?W s s2"
        using l rf(3) by (auto simp: r intro: appends_trans)
      show ?thesis
      proof (cases ro)
        case None
        have "appends ?W s (snd (fastboot cfg env s2))"
          using a fastboot_no_write by (rule appends_trans)
        then show ?thesis
          using l rf by (simp add: n r None fastboot_device)
      next
        case (Some out)
        then show ?thesis
          using l rf a by (simp add: n r)
      qed
    qed
  qed
  then show "device (snd (normal_boot cfg env b s)) = device s"
    "nv_device (snd (normal_boot cfg env b s)) = nv_device s"
    "appends (\<lambda>e. \<not> is_device_write e) s (snd (normal_boot cfg env b s))"
    by simp_all
qed

lemma reg_state_frame:
  "trace (reg_state cfg env s) = trace s @ (if dload_keys env then [RebootDevice] else [])"
  "device (reg_state cfg env s) = device s"
  "nv_device (reg_state cfg env s) = nv_device s"
  by (simp_all add: reg_state_def)

lemma signal_phase_reg:
  "\<not> is_user_force_reset env \<Longrightarrow> \<not> (dload_keys env \<and> \<not> reboot_device_returns env) \<Longrightarrow>
   signal_phase cfg env s =
     (case apply_reboot_mode cfg env (read_reboot_mode cfg env) (reg_state cfg env s) of
        Inl stop \<Rightarrow> Inl stop
      | Inr s4 \<Rightarrow> Inr (force_fastboot cfg s4))"
  by (auto simp: signal_phase_cases reg_state_def)

lemma keysclear_not_logging [simp]:
  "DM_VERITY_KEYSCLEAR \<noteq> verity_logging_code cfg" "DM_VERITY_ENFORCING \<noteq> verity_logging_code cfg"
  "verity_logging_code cfg \<noteq> RECOVERY_MODE" "verity_logging_code cfg \<noteq> FASTBOOT_MODE"
  "verity_logging_code cfg \<noteq> ALARM_BOOT" "verity_logging_code cfg \<noteq> DM_VERITY_ENFORCING"
  by (simp_all add: verity_logging_code_def)

lemma aboot_decide_force_reset:
  "is_user_force_reset env \<Longrightarrow> aboot_decide cfg env b s = normal_boot cfg env b s"
  by (simp add: aboot_decide_def signal_phase_cases)

lemma events_since_self [simp]: "events_since s s = []"
  by (simp add: events_since_def)

lemma reg_state_appends: "appends (\<lambda>e. e = RebootDevice) s (reg_state cfg env s)"
  by (rule appendsI[where ev = "if dload_keys env then [RebootDevice] else []"])
    (simp_all add: reg_state_frame)

lemma filter_none: "list_all (\<lambda>e. \<not> P e) xs \<Longrightarrow> filter P xs = []"
  by (induction xs) auto

lemma appends_no_writes:
  "appends (\<lambda>e. \<not> is_device_write e) s s' \<Longrightarrow> filter is_device_write (events_since s s') = []"
  by (simp add: appends_def filter_none)

lemma signal_phase_writes:
  assumes "signal_phase cfg env s = Inl (out, s') \<or> signal_phase cfg env s = Inr s'"
  shows "appends (\<lambda>e. True) s s' \<and> length (filter is_device_write (events_since s s')) \<le> 1"
proof (cases "is_user_force_reset env")
  case True
  with assms have "s' = s" by (simp add: signal_phase_cases)
  then show ?thesis by simp
next
  case nf: False
  show ?thesis
  proof (cases "dload_keys env \<and> \<not> reboot_device_returns env")
    case True
    with nf assms have "s' = log RebootDevice s" by (simp add: signal_phase_cases)
    then show ?thesis by (simp add: events_since_def appends_log)
  next
    case False
    let ?k = "reg_state cfg env s"
    note sp = signal_phase_reg[OF nf False, of cfg s]
    have k0: "filter is_device_write (events_since s ?k) = []"
      by (rule appends_no_writes, rule appends_mono[OF reg_state_appends]) simp
    have k1: "appends (\<lambda>e. True) s ?k"
      by (rule appends_mono[OF reg_state_appends]) simp
    from assms show ?thesis
    proof
      assume "signal_phase cfg env s = Inl (out, s')"
      then have a: "apply_reboot_mode cfg env (read_reboot_mode cfg env) ?k = Inl (out, s')"
        by (simp add: sp split: sum.splits)
      have k2: "appends (\<lambda>e. True) ?k s'"
        by (rule appends_mono[OF apply_reboot_mode_Inl(2)[OF a]]) simp
      have "events_since s s' = events_since s ?k @ events_since ?k s'"
        using k1 k2 by (rule events_since_trans)
      with k0 apply_reboot_mode_Inl(4)[OF a] appends_trans[OF k1 k2] show ?thesis
        by simp
    next
      assume "signal_phase cfg env s = Inr s'"
      then obtain s4 where a: "apply_reboot_mode cfg env (read_reboot_mode cfg env) ?k = Inr s4"
        and s': "s' = force_fastboot cfg s4"
        by (auto simp: sp split: sum.splits)
      have k2: "appends (\<lambda>e. True) ?k s4"
        by (rule appends_mono[OF apply_reboot_mode_Inr(1)[OF a]]) simp
      have "events_since s s4 = events_since s ?k @ events_since ?k s4"
        using k1 k2 by (rule events_since_trans)
      moreover have "events_since s s' = events_since s s4"
        unfolding s' by (rule events_since_cong_trace(1)) simp
      moreover have "appends (\<lambda>e. True) s s'"
        unfolding s' by (rule appends_cong_trace[OF _ appends_trans[OF k1 k2]]) simp
      ultimately show ?thesis
        using k0 apply_reboot_mode_Inr(5)[OF a] by simp
    qed
  qed
qed

lemma aboot_decide_writes:
  "length (filter is_device_write (events_since s (snd (aboot_decide cfg env b s)))) \<le> 1"
proof (cases "signal_phase cfg env s")
  case (Inl stop)
  obtain out s' where stop: "stop = (out, s')" by (cases stop)
  from signal_phase_writes[of cfg env s out s'] Inl stop show ?thesis
    by (simp add: aboot_decide_def)
next
  case (Inr s1)
  from signal_phase_writes[of cfg env s _ s1] Inr
  have 1: "appends (\<lambda>e. True) s s1" "length (filter is_device_write (events_since s s1)) \<le> 1"
    by simp_all
  note 2 = normal_boot_frame(3)[where cfg = cfg and env = env and b = b and s = s1]
  have "events_since s (snd (normal_boot cfg env b s1)) =
          events_since s s1 @ events_since s1 (snd (normal_boot cfg env b s1))"
    using 1(1) 2 by (rule events_since_trans)
  with 1(2) appends_no_writes[OF 2] show ?thesis
    by (simp add: aboot_decide_def Inr)
qed

lemma apply_reboot_mode_disabled:
  assumes "\<not> vb_policy_enabled cfg env"
  shows "\<exists>s'. apply_reboot_mode cfg env r s = Inr s' \<and> trace s' = trace s \<and>
              device s' = device s \<and> nv_device s' = nv_device s"
  using assms by (simp add: apply_reboot_mode_def)

lemma aboot_decide_disabled:
  assumes "\<not> vb_policy_enabled cfg env"
  shows "device (snd (aboot_decide cfg env b s)) = device s \<and>
         nv_device (snd (aboot_decide cfg env b s)) = nv_device s \<and>
         filter is_device_write (events_since s (snd (aboot_decide cfg env b s))) = []"
proof -
  let ?W = "\<lambda>e. \<not> is_device_write e"
  have n: "device (snd (normal_boot cfg env b s1)) = device s \<and>
         nv_device (snd (normal_boot cfg env b s1)) = nv_device s \<and>
         filter is_device_write (events_since s (snd (normal_boot cfg env b s1))) = []"
    if "device s1 = device s" "nv_device s1 = nv_device s" "appends ?W s s1" for s1
    using that normal_boot_frame[where cfg = cfg and env = env and b = b and s = s1]
    by (auto intro: appends_no_writes appends_trans)
  show ?thesis
  proof (cases "is_user_force_reset env")
    case True
    then show ?thesis
      using n[of s] by (simp add: aboot_decide_force_reset)
  next
    case nf: False
    show ?thesis
    proof (cases "dload_keys env \<and> \<not> reboot_device_returns env")
      case True
      then show ?thesis
        using nf by (simp add: aboot_decide_def signal_phase_cases events_since_def)
    next
      case False
      let ?k = "reg_state cfg env s"
      from apply_reboot_mode_disabled[OF assms, of "read_reboot_mode cfg env" ?k]
      obtain s4 where a: "apply_reboot_mode cfg env (read_reboot_mode cfg env) ?k = Inr s4"
        "trace s4 = trace ?k" "device s4 = device ?k" "nv_device s4 = nv_device ?k"
        by blast
      have d: "aboot_decide cfg env b s = normal_boot cfg env b (force_fastboot cfg s4)"
        by (simp add: aboot_decide_def signal_phase_reg[OF nf False] a(1))
      have "appends ?W s ?k"
        by (rule appends_mono[OF reg_state_appends]) simp
      then have "appends ?W s (force_fastboot cfg s4)"
        by (rule appends_cong_trace[rotated]) (simp add: a(2))
      then show ?thesis
        unfolding d by (intro n) (simp_all add: a reg_state_frame)
    qed
  qed
qed

lemmas env_defs = quiet_env_def enforcing_env_def old_vb_env_def write_fail_env_def
  forced_reset_env_def keysclear_env_def bad_magic_env_def plain_config_def
  vb_policy_enabled_def read_reboot_mode_def dload_keys_def verity_logging_code_def

subsection \<open>Set-up and latched fastboot\<close>

lemmas model_defs = aboot_init_def aboot_setup_def set_page_size_def load_device_def
  read_device_info_def detect_active_slot_def partition_find_active_slot_def lk2nd_init_def
  display_init_def read_serialno_def aboot_decide_def signal_phase_def dload_key_check_def
  single_key_check_def keypad_trigger_def apply_reboot_mode_def write_device_info_def
  force_fastboot_def normal_boot_def lk2nd_boot_def emmc_boot_def flash_boot_def
  signal_tamper_def fastboot_def partition_find_boot_slot_def partition_mark_active_slot_def
  mark_active_def partition_deactivate_slot_def deactivate_def retryable_def log_def
  events_since_def Let_def

lemmas input_defs = env_defs cold_state_def locked_device_def two_slots_def
  dload_keysclear_env_def dload_multislot_env_def no_active_slots_def volume_keys_def
  forced_fastboot_config_def user_reset_env_def

lemma display_shutdown_wait_ends:
  "\<not> busy (k + n) \<Longrightarrow> \<exists>r. display_shutdown_wait busy k = Some r"
proof (induction n arbitrary: k)
  case 0
  then show ?case by (subst display_shutdown_wait.simps) simp
next
  case (Suc n)
  then have "\<exists>r. display_shutdown_wait busy (Suc k) = Some r" by simp
  then show ?case by (subst display_shutdown_wait.simps) simp
qed

lemma setup_event_kinds [simp]:
  "\<not> is_device_write MsmWdogInit" "\<not> is_device_write Lk2ndInit"
  "\<not> is_device_write (TargetDisplayInit p)" "\<not> is_device_write DisplayImageOnScreen"
  "\<not> is_device_write TargetSerialno"
  "\<not> is_tamper_signal MsmWdogInit" "\<not> is_tamper_signal Lk2ndInit"
  "\<not> is_tamper_signal (TargetDisplayInit p)" "\<not> is_tamper_signal DisplayImageOnScreen"
  "\<not> is_tamper_signal TargetSerialno"
  by (simp_all add: is_device_write_def is_tamper_signal_def)

lemma display_init_completes:
  assumes "\<exists>k. \<not> pm_app_display_shutdown_in_prgs env k"
  shows "\<exists>s'. display_init cfg env s = Some s' \<and>
              appends (\<lambda>e. \<not> is_boot_attempt e) s s' \<and>
              boot_into_fastboot s' = boot_into_fastboot s"
proof -
  from assms obtain k where "\<not> pm_app_display_shutdown_in_prgs env (0 + k)" by auto
  from display_shutdown_wait_ends[of "pm_app_display_shutdown_in_prgs env" 0 k, OF this]
  obtain r where r: "display_shutdown_wait (pm_app_display_shutdown_in_prgs env) 0 = Some r" ..
  show ?thesis
    by (auto simp: display_init_def Let_def r intro!: appends_log)
qed

lemma setup_pieces:
  "trace (set_page_size env s) = trace s"
  "boot_into_fastboot (set_page_size env s) = boot_into_fastboot s"
  "slots (set_page_size env s) = slots s"
  "trace (load_device cfg env s) = trace s"
  "boot_into_fastboot (load_device cfg env s) = boot_into_fastboot s"
  "slots (load_device cfg env s) = slots s"
  by (simp_all add: set_page_size_def load_device_def read_device_info_def Let_def)

lemma aboot_setup_completes:
  assumes mem: "MEMBASE cfg < MEMBASE cfg + MEMSIZE cfg"
    and wait: "\<exists>k. \<not> pm_app_display_shutdown_in_prgs env k"
  shows "\<exists>b s. aboot_setup cfg env g = Some (Inr (b, s)) \<and>
               appends (\<lambda>e. \<not> is_boot_attempt e) g s \<and>
               (partition_multislot_is_supported env \<and>
                partition_find_active_slot (slots g) = None \<longrightarrow> boot_into_fastboot s)"
proof -
  let ?P = "\<lambda>e. \<not> is_boot_attempt e"
  define s1 where "s1 = (if WDOG_SUPPORT cfg then log MsmWdogInit g else g)"
  define s3 where "s3 = load_device cfg env (set_page_size env s1)"
  obtain b s4 where d: "detect_active_slot env s3 = (b, s4)" by (cases "detect_active_slot env s3")
  define s5 where "s5 = lk2nd_init cfg env s4"
  from display_init_completes[OF wait, of cfg s5]
  obtain s6 where s6: "display_init cfg env s5 = Some s6" "appends ?P s5 s6"
    "boot_into_fastboot s6 = boot_into_fastboot s5" by blast
  define s7 where "s7 = read_serialno cfg env s6"
  have r: "aboot_setup cfg env g = Some (Inr (b, s7))"
    using mem by (simp add: aboot_setup_def Let_def s1_def[symmetric] s3_def[symmetric] d
        s5_def[symmetric] s6 s7_def)
  have a1: "appends ?P g s1" by (simp add: s1_def appends_log)
  have a3: "appends ?P g s3"
    by (rule appends_cong_trace[OF _ a1]) (simp add: s3_def setup_pieces)
  have sl: "slots s3 = slots g" by (simp add: s3_def s1_def setup_pieces)
  have a4: "appends ?P s3 s4"
    using d by (auto simp: detect_active_slot_def Let_def split: if_splits
        intro: appends_step[where s' = s3])
  have f4: "boot_into_fastboot s4"
    if "partition_multislot_is_supported env" "partition_find_active_slot (slots g) = None"
    using d that by (auto simp: detect_active_slot_def Let_def sl)
  have a5: "appends ?P s4 s5"
  proof (cases "WITH_LK2ND cfg")
    case True
    show ?thesis
      by (rule appends_step[where s' = s4 and e = Lk2ndInit]) (simp_all add: s5_def lk2nd_init_def True)
  next
    case False
    then show ?thesis by (simp add: s5_def lk2nd_init_def)
  qed
  have f5: "boot_into_fastboot s5 = boot_into_fastboot s4" by (simp add: s5_def lk2nd_init_def)
  have a7: "appends ?P s6 s7"
  proof (cases "\<not> WITH_LK2ND cfg \<or> sn_buf s6 = []")
    case True
    then have "trace s7 = trace s6 @ [TargetSerialno]"
      by (simp add: s7_def read_serialno_def Let_def)
    with appends_refl show ?thesis by (rule appends_step) simp
  next
    case False
    then have "trace s7 = trace s6"
      by (simp add: s7_def read_serialno_def Let_def)
    then show ?thesis by (rule appends_same_trace)
  qed
  have f7: "boot_into_fastboot s7 = boot_into_fastboot s6" by (simp add: s7_def read_serialno_def Let_def)
  have "appends ?P g s7"
    using a3 a4 a5 s6(2) a7 by (blast intro: appends_trans)
  with r f4 f5 f7 s6(3) show ?thesis by auto
qed

lemma aboot_init_latched:
  assumes mem: "MEMBASE cfg < MEMBASE cfg + MEMSIZE cfg"
    and wait: "\<exists>k. \<not> pm_app_display_shutdown_in_prgs env k"
    and l: "(partition_multislot_is_supported env \<and> partition_find_active_slot (slots g) = None) \<or>
            (\<not> is_user_force_reset env \<and> (LK2ND_FORCE_FASTBOOT cfg \<or> dload_keys env))"
  shows "\<exists>s'. aboot_init cfg env g =
                Some (if \<not> is_user_force_reset env \<and> dload_keys env \<and>
                         \<not> reboot_device_returns env
                      then DloadReset
                      else if \<not> is_user_force_reset env \<and> policy_halts cfg env then Halted
                      else FastbootStarted, s') \<and>
              (\<forall>e \<in> set (events_since g s'). \<not> is_boot_attempt e)"
proof -
  from aboot_setup_completes[OF mem wait, of g]
  obtain b s where s: "aboot_setup cfg env g = Some (Inr (b, s))"
    "appends (\<lambda>e. \<not> is_boot_attempt e) g s"
    "partition_multislot_is_supported env \<and> partition_find_active_slot (slots g) = None
       \<longrightarrow> boot_into_fastboot s"
    by blast
  have i: "aboot_init cfg env g = Some (aboot_decide cfg env b s)"
    by (simp add: aboot_init_def s(1))
  from l s(3) have l': "boot_into_fastboot s \<or>
      (\<not> is_user_force_reset env \<and> (LK2ND_FORCE_FASTBOOT cfg \<or> dload_keys env))"
    by blast
  note d = decide_latched[OF l', of b]
  have "appends (\<lambda>e. \<not> is_boot_attempt e) g (snd (aboot_decide cfg env b s))"
    using s(2) d(2) by (rule appends_trans)
  then have "\<forall>e \<in> set (events_since g (snd (aboot_decide cfg env b s))). \<not> is_boot_attempt e"
    by (rule appends_events)
  with d(1) show ?thesis
    unfolding i by (intro exI[of _ "snd (aboot_decide cfg env b s)"]) (simp add: prod_eq_iff)
qed

lemma decide_dload_first:
  assumes "dload_keys env" and "\<not> is_user_force_reset env"
  shows "\<exists>ev. events_since s (snd (aboot_decide cfg env b s)) = RebootDevice # ev"
proof (cases "reboot_device_returns env")
  case False
  with assms show ?thesis
    by (simp add: aboot_decide_def signal_phase_cases events_since_def)
next
  case True
  let ?k = "reg_state cfg env s"
  have k: "trace ?k = trace s @ [RebootDevice]"
    using assms by (simp add: reg_state_frame)
  have "\<exists>ev. trace (snd (aboot_decide cfg env b s)) = trace ?k @ ev"
  proof (cases "apply_reboot_mode cfg env (read_reboot_mode cfg env) ?k")
    case (Inl stop)
    obtain out s' where stop: "stop = (out, s')" by (cases stop)
    from apply_reboot_mode_Inl(2)[OF Inl[unfolded stop]]
    obtain ev where "trace s' = trace ?k @ ev" by (rule appendsE)
    then show ?thesis
      using assms True by (simp add: aboot_decide_def signal_phase_reg Inl stop)
  next
    case (Inr s4)
    from apply_reboot_mode_Inr(1)[OF Inr]
    have "appends (\<lambda>e. True) ?k s4" by (rule appends_mono) simp
    then have "appends (\<lambda>e. True) ?k (force_fastboot cfg s4)"
      by (rule appends_cong_trace[rotated]) simp
    moreover have "appends (\<lambda>e. True) (force_fastboot cfg s4)
                     (snd (normal_boot cfg env b (force_fastboot cfg s4)))"
      using normal_boot_frame(3)[where cfg = cfg and env = env and b = b
          and s = "force_fastboot cfg s4"]
      by (rule appends_mono) simp
    ultimately have "appends (\<lambda>e. True) ?k (snd (normal_boot cfg env b (force_fastboot cfg s4)))"
      by (rule appends_trans)
    then obtain ev where "trace (snd (normal_boot cfg env b (force_fastboot cfg s4))) = trace ?k @ ev"
      by (rule appendsE)
    then show ?thesis
      using assms True by (simp add: aboot_decide_def signal_phase_reg Inr)
  qed
  then show ?thesis
    by (auto simp: k events_since_def)
qed

subsection \<open>Tamper signals\<close>

lemma mmc_load_is_attempt: "is_mmc_load e \<Longrightarrow> is_boot_attempt e"
  by (cases e) (simp_all add: is_mmc_load_def is_boot_attempt_def)

lemma mmc_load_kinds [simp]:
  "is_mmc_load (BootLinuxFromMmc slot)" "\<not> is_mmc_load Lk2ndBoot"
  "\<not> is_mmc_load EmmcRecoveryInit" "\<not> is_mmc_load RecoveryInit"
  "\<not> is_mmc_load (SetTamperFlag f)" "\<not> is_mmc_load SetTamperFuseCmd"
  "\<not> is_mmc_load BootLinuxFromFlash"
  by (simp_all add: is_mmc_load_def)

lemma tamper_first_no_load: "list_all (\<lambda>e. \<not> is_mmc_load e) A \<Longrightarrow> tamper_first A"
  by (induction A) auto

lemma tamper_first_append:
  "list_all (\<lambda>e. \<not> is_mmc_load e) A \<Longrightarrow>
   tamper_first (A @ B) \<longleftrightarrow> (\<exists>e \<in> set A. is_tamper_signal e) \<or> tamper_first B"
  by (induction A) auto

lemma tamper_first_load:
  "tamper_first ev \<Longrightarrow> ev = pre @ BootLinuxFromMmc slot # post \<Longrightarrow>
   \<exists>e \<in> set pre. is_tamper_signal e"
proof (induction ev arbitrary: pre)
  case Nil
  then show ?case by simp
next
  case (Cons a ev)
  show ?case
  proof (cases pre)
    case Nil
    with Cons.prems show ?thesis by (simp add: is_tamper_signal_def)
  next
    case (Cons p pre')
    with Cons.prems Cons.IH[of pre'] show ?thesis
      by (auto split: if_splits)
  qed
qed

lemma appends_no_load:
  "appends (\<lambda>e. \<not> is_boot_attempt e) s s' \<Longrightarrow> appends (\<lambda>e. \<not> is_mmc_load e) s s'"
  by (erule appends_mono) (auto dest: mmc_load_is_attempt)

lemma appends_list_all: "appends P s s' \<Longrightarrow> list_all P (events_since s s')"
  by (simp add: appends_def)

lemma signal_tamper_signals:
  assumes "TZ_TAMPER_FUSE cfg \<or> USE_PCOM_SECBOOT cfg" and "target_use_signed_kernel env"
    and "is_unlocked (device s) \<or> is_tampered (device s)"
  shows "\<exists>e \<in> set (events_since s (signal_tamper cfg env s)). is_tamper_signal e"
  using assms by (auto simp: signal_tamper_def Let_def events_since_def)

lemma normal_boot_tamper_first:
  assumes fl: "TZ_TAMPER_FUSE cfg \<or> USE_PCOM_SECBOOT cfg" and sg: "target_use_signed_kernel env"
    and ul: "is_unlocked (device s) \<or> is_tampered (device s)"
  shows "tamper_first (events_since s (snd (normal_boot cfg env b s)))"
proof (cases "boot_into_fastboot s")
  case True
  have "appends (\<lambda>e. \<not> is_mmc_load e) s (snd (fastboot cfg env s))"
    by (rule appends_no_load, rule appends_mono[OF fastboot_appends]) simp
  then show ?thesis
    by (simp add: normal_boot_latched[OF True] tamper_first_no_load appends_list_all)
next
  case nf: False
  let ?N = "\<lambda>e. \<not> is_mmc_load e"
  show ?thesis
  proof (cases "lk2nd_boot cfg env s")
    case (Inl stop)
    obtain out s' where stop: "stop = (out, s')" by (cases stop)
    have "appends ?N s s'"
      using Inl stop by (auto simp: lk2nd_boot_def Let_def split: if_splits intro!: appends_log)
    then show ?thesis
      by (simp add: normal_boot_def nf Inl stop tamper_first_no_load appends_list_all)
  next
    case (Inr s1)
    have l: "appends ?N s s1" "device s1 = device s"
      using Inr by (auto simp: lk2nd_boot_def Let_def split: if_splits intro!: appends_log)
    show ?thesis
    proof (cases "target_is_emmc_boot env")
      case False
      have "appends ?N s1 (snd (flash_boot cfg env s1))"
        by (simp add: flash_boot_def Let_def appends_log)
      with l(1) have a: "appends ?N s (snd (flash_boot cfg env s1))"
        by (rule appends_trans)
      obtain ro s2 where r: "flash_boot cfg env s1 = (ro, s2)" by (cases "flash_boot cfg env s1")
      have "appends ?N s2 (snd (fastboot cfg env s2))"
        by (rule appends_no_load, rule appends_mono[OF fastboot_appends]) simp
      with a have "appends ?N s (snd (fastboot cfg env s2))"
        unfolding r by (auto intro: appends_trans)
      with a show ?thesis
        by (cases ro) (simp_all add: normal_boot_def nf Inr False r tamper_first_no_load
            appends_list_all)
    next
      case True
      let ?s1' = "if \<not> ABOOT_STANDALONE cfg then log EmmcRecoveryInit s1 else s1"
      let ?s2 = "signal_tamper cfg env ?s1'"
      have e: "emmc_boot cfg env b s1 = retry_boot env 0 b ?s2"
        by (simp add: emmc_boot_def Let_def)
      have a1: "appends ?N s1 ?s1'" by (simp add: appends_log)
      have a2: "appends ?N ?s1' ?s2"
        by (rule appends_mono[OF signal_tamper_appends]) (auto dest: mmc_load_is_attempt)
      have t2: "\<exists>e \<in> set (events_since ?s1' ?s2). is_tamper_signal e"
        using fl sg ul by (intro signal_tamper_signals) (simp_all add: l(2))
      have a: "appends ?N s ?s2"
        using l(1) a1 a2 by (blast intro: appends_trans)
      have "events_since s ?s2 = events_since s ?s1' @ events_since ?s1' ?s2"
        using appends_trans[OF l(1) a1] a2 by (rule events_since_trans)
      with t2 have t: "\<exists>e \<in> set (events_since s ?s2). is_tamper_signal e"
        by auto
      obtain ro s3 where r: "retry_boot env 0 b ?s2 = (ro, s3)"
        by (cases "retry_boot env 0 b ?s2")
      have a3: "appends (\<lambda>e. True) ?s2 s3"
        using retry_boot_frame[of env 0 b ?s2] unfolding r by (auto elim: appends_mono)
      have a4: "appends (\<lambda>e. True) s3 (snd (fastboot cfg env s3))"
        by (rule appends_mono[OF fastboot_appends]) simp
      define fin where "fin = snd (normal_boot cfg env b s)"
      have "appends (\<lambda>e. True) ?s2 fin"
        using a3 appends_trans[OF a3 a4]
        by (cases ro) (simp_all add: fin_def normal_boot_def nf Inr True e r)
      with a have "events_since s fin = events_since s ?s2 @ events_since ?s2 fin"
        by (rule events_since_trans)
      with t appends_list_all[OF a] show ?thesis
        unfolding fin_def[symmetric] by (simp add: tamper_first_append)
    qed
  qed
qed

text \<open>A build with neither tamper mechanism never sends a tamper signal.\<close>

lemma no_mechanism_normal_boot:
  assumes "\<not> TZ_TAMPER_FUSE cfg" and "\<not> USE_PCOM_SECBOOT cfg"
  shows "appends (\<lambda>e. \<not> is_tamper_signal e) s (snd (normal_boot cfg env b s))"
proof -
  let ?T = "\<lambda>e. \<not> is_tamper_signal e"
  have fb: "appends ?T s0 (snd (fastboot cfg env s0))" for s0
    by (simp add: fastboot_def Let_def appends_log is_tamper_signal_def)
  show ?thesis
  proof (cases "boot_into_fastboot s")
    case True
    then show ?thesis by (simp add: normal_boot_latched fb)
  next
    case nf: False
    show ?thesis
    proof (cases "lk2nd_boot cfg env s")
      case (Inl stop)
      obtain out s' where stop: "stop = (out, s')" by (cases stop)
      have "appends ?T s s'"
        using Inl stop by (auto simp: lk2nd_boot_def Let_def split: if_splits intro!: appends_log)
      then show ?thesis by (simp add: normal_boot_def nf Inl stop)
    next
      case (Inr s1)
      have l: "appends ?T s s1"
        using Inr by (auto simp: lk2nd_boot_def Let_def split: if_splits intro!: appends_log)
      define r where "r = (if target_is_emmc_boot env then emmc_boot cfg env b s1
                           else flash_boot cfg env s1)"
      have rt: "appends ?T s1 (snd r)"
      proof (cases "target_is_emmc_boot env")
        case False
        then show ?thesis
          using assms by (simp add: r_def flash_boot_def Let_def appends_log is_tamper_signal_def)
      next
        case True
        let ?s1' = "if \<not> ABOOT_STANDALONE cfg then log EmmcRecoveryInit s1 else s1"
        have st: "signal_tamper cfg env ?s1' = ?s1'"
          using assms by (simp add: signal_tamper_def Let_def)
        have "appends ?T s1 ?s1'" by (simp add: appends_log)
        moreover have "appends ?T ?s1' (snd (retry_boot env 0 b ?s1'))"
          using retry_boot_frame[of env 0 b ?s1'] by (auto elim: appends_mono)
        ultimately have "appends ?T s1 (snd (retry_boot env 0 b ?s1'))"
          by (rule appends_trans)
        then show ?thesis
          unfolding r_def emmc_boot_def Let_def st using True by simp
      qed
      obtain ro s2 where r: "r = (ro, s2)" by (cases r)
      have a: "appends ?T s s2"
        using l rt by (auto simp: r intro: appends_trans)
      have n: "normal_boot cfg env b s =
                 (case r of (Some out, s2) \<Rightarrow> (out, s2) | (None, s2) \<Rightarrow> fastboot cfg env s2)"
        by (simp add: normal_boot_def nf Inr r_def)
      show ?thesis
      proof (cases ro)
        case None
        have "appends ?T s (snd (fastboot cfg env s2))"
          using a fb by (rule appends_trans)
        then show ?thesis by (simp add: n r None)
      next
        case (Some out)
        then show ?thesis using a by (simp add: n r)
      qed
    qed
  qed
qed

lemma no_mechanism_no_signal:
  assumes "\<not> TZ_TAMPER_FUSE cfg" and "\<not> USE_PCOM_SECBOOT cfg"
  shows "list_all (\<lambda>e. \<not> is_tamper_signal e) (events_since s (snd (aboot_decide cfg env b s)))"
proof -
  let ?T = "\<lambda>e. \<not> is_tamper_signal e"
  have "appends ?T s (snd (aboot_decide cfg env b s))"
  proof (cases "signal_phase cfg env s")
    case (Inl stop)
    obtain out s' where stop: "stop = (out, s')" by (cases stop)
    have "appends ?T s s'"
      by (rule appends_mono[OF signal_phase_Inl(3)[OF Inl[unfolded stop]]]) simp
    then show ?thesis by (simp add: aboot_decide_def Inl stop)
  next
    case (Inr s1)
    have "appends ?T s s1"
      by (rule appends_mono[OF signal_phase_Inr(1)[OF Inr]]) simp
    then have "appends ?T s (snd (normal_boot cfg env b s1))"
      using no_mechanism_normal_boot[OF assms] by (rule appends_trans)
    then show ?thesis by (simp add: aboot_decide_def Inr)
  qed
  then show ?thesis by (simp add: appends_def)
qed

subsection \<open>The flags after the signal phase\<close>

lemma signal_phase_flags:
  "\<not> is_user_force_reset env \<Longrightarrow>
      (case signal_phase cfg env s of
         Inl (out, s') \<Rightarrow>
           (out = DloadReset \<and> dload_keys env \<and> \<not> reboot_device_returns env) \<or>
           (out = Halted \<and> \<not> (dload_keys env \<and> \<not> reboot_device_returns env) \<and>
            policy_halts cfg env)
       | Inr s' \<Rightarrow>
           \<not> (dload_keys env \<and> \<not> reboot_device_returns env) \<and> \<not> policy_halts cfg env \<and>
           (boot_into_fastboot s' \<longleftrightarrow>
              boot_into_fastboot s \<or> dload_keys env \<or>
              (boot_into_recovery s = 0 \<and> \<not> keys_get_state env KEY_VOLUMEUP \<and>
               (keys_get_state env KEY_HOME \<or> keys_get_state env KEY_BACK \<or>
                keys_get_state env KEY_VOLUMEDOWN)) \<or>
              (NO_KEYPAD_DRIVER cfg \<and> fastboot_trigger env) \<or>
              read_reboot_mode cfg env = FASTBOOT_MODE \<or> LK2ND_FORCE_FASTBOOT cfg) \<and>
           (boot_into_recovery s' \<noteq> 0 \<longleftrightarrow>
              boot_into_recovery s \<noteq> 0 \<or>
              (\<not> boot_into_fastboot s \<and> keys_get_state env KEY_VOLUMEUP \<and>
               \<not> keys_get_state env KEY_VOLUMEDOWN) \<or>
              read_reboot_mode cfg env = RECOVERY_MODE) \<and>
           (boot_reason_alarm s' \<longleftrightarrow>
              boot_reason_alarm s \<or> read_reboot_mode cfg env = ALARM_BOOT) \<and>
           device s' =
             (if vb_policy_enabled cfg env \<and> read_reboot_mode cfg env = DM_VERITY_ENFORCING
              then (device s)\<lparr>verity_mode := 1\<rparr>
              else if vb_policy_enabled cfg env \<and>
                      read_reboot_mode cfg env = verity_logging_code cfg
              then (device s)\<lparr>verity_mode := 0\<rparr>
              else device s))"
  apply (cases "read_reboot_mode cfg env")
  apply (auto simp: signal_phase_def dload_key_check_def single_key_check_def
      keypad_trigger_def apply_reboot_mode_def write_device_info_def force_fastboot_def
      dload_keys_def policy_halts_def Let_def verity_logging_code_def
      split: sum.splits if_splits)
  done

lemma latched_decides_fastboot:
  assumes "signal_phase cfg env s = Inr s'" and "boot_into_fastboot s'"
  shows "fst (aboot_decide cfg env b s) = FastbootStarted"
    and "list_all (\<lambda>e. \<not> is_boot_attempt e) (events_since s (snd (aboot_decide cfg env b s)))"
proof -
  have d: "aboot_decide cfg env b s = fastboot cfg env s'"
    using assms by (simp add: aboot_decide_def normal_boot_latched)
  show "fst (aboot_decide cfg env b s) = FastbootStarted"
    by (simp add: d fastboot_outcome)
  have "appends (\<lambda>e. \<not> is_boot_attempt e) s s'"
    using signal_phase_Inr(1)[OF assms(1)] by (rule appends_mono) simp
  moreover have "appends (\<lambda>e. \<not> is_boot_attempt e) s' (snd (fastboot cfg env s'))"
    using fastboot_appends[of s' cfg env] by (rule appends_mono) simp
  ultimately have "appends (\<lambda>e. \<not> is_boot_attempt e) s (snd (aboot_decide cfg env b s))"
    unfolding d by (rule appends_trans)
  then show "list_all (\<lambda>e. \<not> is_boot_attempt e)
               (events_since s (snd (aboot_decide cfg env b s)))"
    by (simp add: appends_def)
qed

section \<open>The claims\<close>

text \<open>
  C1, as the code has it. The forced-reset test comes first and skips everything else: the
  flags stay as they were on entry. Otherwise the check of both volume keys comes first among
  the keys: the emergency reset is requested and, when the request comes back, fastboot is
  latched. The single-key checks run only while fastboot is not latched (it can be latched
  already on entry, by an \<open>INVALID\<close> active slot, or by the failed emergency reset): the
  recovery key latches recovery, and the fastboot keys latch fastboot only while recovery is
  not latched. The reset-reason register is then read in every case, whether or not a key
  fired: its recovery, fastboot or alarm flag is latched in addition to the flags latched so
  far, and its verity code changes the device record. Fastboot is also latched by the
  keypad-less trigger and by the force flag. The phase ends early only by a successful
  emergency reset or by a halt of the policy step. Whenever fastboot is latched at the end of
  the phase, also together with recovery, no boot is attempted and fastboot is started.
\<close>

theorem signal_flags:
  "(is_user_force_reset env \<longrightarrow> signal_phase cfg env s = Inr s) \<and>
   (\<not> is_user_force_reset env \<longrightarrow>
      (case signal_phase cfg env s of
         Inl (out, s') \<Rightarrow>
           (out = DloadReset \<and> dload_keys env \<and> \<not> reboot_device_returns env) \<or>
           (out = Halted \<and> \<not> (dload_keys env \<and> \<not> reboot_device_returns env) \<and>
            policy_halts cfg env)
       | Inr s' \<Rightarrow>
           \<not> (dload_keys env \<and> \<not> reboot_device_returns env) \<and> \<not> policy_halts cfg env \<and>
           (boot_into_fastboot s' \<longleftrightarrow>
              boot_into_fastboot s \<or> dload_keys env \<or>
              (boot_into_recovery s = 0 \<and> \<not> keys_get_state env KEY_VOLUMEUP \<and>
               (keys_get_state env KEY_HOME \<or> keys_get_state env KEY_BACK \<or>
                keys_get_state env KEY_VOLUMEDOWN)) \<or>
              (NO_KEYPAD_DRIVER cfg \<and> fastboot_trigger env) \<or>
              read_reboot_mode cfg env = FASTBOOT_MODE \<or> LK2ND_FORCE_FASTBOOT cfg) \<and>
           (boot_into_recovery s' \<noteq> 0 \<longleftrightarrow>
              boot_into_recovery s \<noteq> 0 \<or>
              (\<not> boot_into_fastboot s \<and> keys_get_state env KEY_VOLUMEUP \<and>
               \<not> keys_get_state env KEY_VOLUMEDOWN) \<or>
              read_reboot_mode cfg env = RECOVERY_MODE) \<and>
           (boot_reason_alarm s' \<longleftrightarrow>
              boot_reason_alarm s \<or> read_reboot_mode cfg env = ALARM_BOOT) \<and>
           device s' =
             (if vb_policy_enabled cfg env \<and> read_reboot_mode cfg env = DM_VERITY_ENFORCING
              then (device s)\<lparr>verity_mode := 1\<rparr>
              else if vb_policy_enabled cfg env \<and>
                      read_reboot_mode cfg env = verity_logging_code cfg
              then (device s)\<lparr>verity_mode := 0\<rparr>
              else device s))) \<and>
   (\<forall>s'. signal_phase cfg env s = Inr s' \<and> boot_into_fastboot s' \<longrightarrow>
      fst (aboot_decide cfg env b s) = FastbootStarted \<and>
      list_all (\<lambda>e. \<not> is_boot_attempt e) (events_since s (snd (aboot_decide cfg env b s))))"
proof (intro conjI impI allI)
  assume "is_user_force_reset env"
  then show "signal_phase cfg env s = Inr s" by (simp add: signal_phase_cases)
next
  assume "\<not> is_user_force_reset env"
  then show "case signal_phase cfg env s of
         Inl (out, s') \<Rightarrow>
           (out = DloadReset \<and> dload_keys env \<and> \<not> reboot_device_returns env) \<or>
           (out = Halted \<and> \<not> (dload_keys env \<and> \<not> reboot_device_returns env) \<and>
            policy_halts cfg env)
       | Inr s' \<Rightarrow>
           \<not> (dload_keys env \<and> \<not> reboot_device_returns env) \<and> \<not> policy_halts cfg env \<and>
           (boot_into_fastboot s' \<longleftrightarrow>
              boot_into_fastboot s \<or> dload_keys env \<or>
              (boot_into_recovery s = 0 \<and> \<not> keys_get_state env KEY_VOLUMEUP \<and>
               (keys_get_state env KEY_HOME \<or> keys_get_state env KEY_BACK \<or>
                keys_get_state env KEY_VOLUMEDOWN)) \<or>
              (NO_KEYPAD_DRIVER cfg \<and> fastboot_trigger env) \<or>
              read_reboot_mode cfg env = FASTBOOT_MODE \<or> LK2ND_FORCE_FASTBOOT cfg) \<and>
           (boot_into_recovery s' \<noteq> 0 \<longleftrightarrow>
              boot_into_recovery s \<noteq> 0 \<or>
              (\<not> boot_into_fastboot s \<and> keys_get_state env KEY_VOLUMEUP \<and>
               \<not> keys_get_state env KEY_VOLUMEDOWN) \<or>
              read_reboot_mode cfg env = RECOVERY_MODE) \<and>
           (boot_reason_alarm s' \<longleftrightarrow>
              boot_reason_alarm s \<or> read_reboot_mode cfg env = ALARM_BOOT) \<and>
           device s' =
             (if vb_policy_enabled cfg env \<and> read_reboot_mode cfg env = DM_VERITY_ENFORCING
              then (device s)\<lparr>verity_mode := 1\<rparr>
              else if vb_policy_enabled cfg env \<and>
                      read_reboot_mode cfg env = verity_logging_code cfg
              then (device s)\<lparr>verity_mode := 0\<rparr>
              else device s)"
    by (rule signal_phase_flags)
next
  fix s'
  assume a: "signal_phase cfg env s = Inr s' \<and> boot_into_fastboot s'"
  then show "fst (aboot_decide cfg env b s) = FastbootStarted"
    by (intro latched_decides_fastboot(1)[of cfg env s s']) simp_all
  from a show "list_all (\<lambda>e. \<not> is_boot_attempt e)
                 (events_since s (snd (aboot_decide cfg env b s)))"
    by (intro latched_decides_fastboot(2)[of cfg env s s']) simp_all
qed

theorem signal_flags_witness:
  "\<not> is_user_force_reset recovery_key_env \<and>
   (case signal_phase plain_config recovery_key_env cold_state of
      Inl stop \<Rightarrow> False
    | Inr s' \<Rightarrow> boot_into_fastboot s' \<and> boot_into_recovery s' \<noteq> 0 \<and> \<not> boot_reason_alarm s' \<and>
               device s' = device cold_state) \<and>
   fst (aboot_decide plain_config recovery_key_env None cold_state) = FastbootStarted \<and>
   list_all (\<lambda>e. \<not> is_boot_attempt e)
     (events_since cold_state (snd (aboot_decide plain_config recovery_key_env None cold_state))) \<and>
   \<not> is_user_force_reset volume_up_env \<and> boot_into_fastboot latched_state \<and>
   (case signal_phase plain_config volume_up_env latched_state of
      Inl stop \<Rightarrow> False
    | Inr s' \<Rightarrow> boot_into_fastboot s' \<and> boot_into_recovery s' = 0) \<and>
   is_user_force_reset user_reset_env \<and>
   signal_phase plain_config user_reset_env cold_state = Inr cold_state"
  using signal_flags[where cfg = plain_config and env = recovery_key_env and s = cold_state
      and b = None]
    signal_flags[where cfg = plain_config and env = volume_up_env and s = latched_state
      and b = None]
    signal_flags[where cfg = plain_config and env = user_reset_env and s = cold_state
      and b = None]
  by (simp add: model_defs input_defs recovery_key_env_def volume_up_env_def latched_state_def
      is_boot_attempt_def)

text \<open>
  The statement of C1 fails: with only the volume-up key down the precedence table resolves
  to recovery and would not consult the register, but the code reads the register, latches
  fastboot from it as well, and ends in fastboot.
\<close>

theorem signal_precedence_counterexample:
  "\<not> is_user_force_reset recovery_key_env \<and>
   spec_key_intent recovery_key_env = Recovery \<and>
   spec_signal_collector plain_config recovery_key_env = Recovery \<and>
   (case signal_phase plain_config recovery_key_env cold_state of
      Inl stop \<Rightarrow> False
    | Inr s' \<Rightarrow> boot_into_recovery s' = 1 \<and> boot_into_fastboot s') \<and>
   map_option (\<lambda>r. (fst r, trace (snd r))) (aboot_init plain_config recovery_key_env cold_state) =
     Some (FastbootStarted,
           [Lk2ndInit, FastbootRegisterCommands, AbootFastbootRegisterCommands, PartitionDump,
            FastbootInit False])"
  by (simp add: model_defs input_defs recovery_key_env_def spec_key_intent_def
      spec_signal_collector_def)

text \<open>
  C2. On multi-slot hardware the retry loop ends, and its trace is a sequence of rounds
  "select slot, load from slot, deactivate slot" over pairwise distinct slots that were
  bootable on entry, followed by its exit. Either no bootable slot is left, every slot that
  was bootable has had exactly one round, the last selection returned \<open>INVALID\<close> and
  control goes on to the label \<open>fastboot\<close>; or the last load, from a bootable slot that
  had no round before, started the kernel or failed with an error that is not retried. A
  slot is deactivated right after its failed load and is never loaded from again.
\<close>

theorem retry_boot_slots:
  fixes env :: env and s :: state
  assumes ms: "partition_multislot_is_supported env"
  shows "\<exists>order tl.
           distinct order \<and> set order \<subseteq> set (bootable_slots (slots s)) \<and>
           trace (snd (retry_boot env n b s)) = trace s @ concat (map attempt_events order) @ tl \<and>
           ((fst (retry_boot env n b s) = None \<and> tl = [MarkActiveSlot None] \<and>
             set order = set (bootable_slots (slots s)) \<and>
             bootable_slots (slots (snd (retry_boot env n b s))) = [])
            \<or>
            (\<exists>i. i \<in> set (bootable_slots (slots s)) \<and> i \<notin> set order \<and>
                 tl = [MarkActiveSlot (Some i), BootLinuxFromMmc (Some i)] \<and>
                 (case boot_linux_from_mmc env (n + length order) (Some i) of
                    None \<Rightarrow> fst (retry_boot env n b s) = Some KernelStarted
                  | Some e \<Rightarrow> \<not> retryable e \<and> fst (retry_boot env n b s) = None)))"
  using ms
proof (induction env n b s rule: retry_boot_induct)
  case (step env n b s)
  note ms = \<open>partition_multislot_is_supported env\<close>
  show ?case
  proof (cases "partition_find_boot_slot (slots s)")
    case None
    have r: "retry_boot env n b s = (None, partition_mark_active_slot None s)"
      using ms None by (rule retry_boot_exhausted)
    have e: "bootable_slots (slots s) = []"
      using None by (rule find_boot_slot_None)
    show ?thesis
      by (rule exI[of _ "[]"], rule exI[of _ "[MarkActiveSlot None]"]) (simp add: r e)
  next
    case (Some i)
    note att = retry_boot_attempt[OF ms Some, of n b]
    have ib: "i \<in> set (bootable_slots (slots s))"
      using Some by (rule find_boot_slot_Some)
    let ?s2 = "log (BootLinuxFromMmc (Some i)) (partition_mark_active_slot (Some i) s)"
    show ?thesis
    proof (cases "boot_linux_from_mmc env n (Some i)")
      case None
      show ?thesis
        by (rule exI[of _ "[]"], rule exI[of _ "[MarkActiveSlot (Some i), BootLinuxFromMmc (Some i)]"])
          (simp add: att None ib)
    next
      case (Some e)
      show ?thesis
      proof (cases "retryable e")
        case False
        show ?thesis
          by (rule exI[of _ "[]"], rule exI[of _ "[MarkActiveSlot (Some i), BootLinuxFromMmc (Some i)]"])
            (simp add: att Some False ib)
      next
        case True
        let ?s3 = "partition_deactivate_slot (Some i) ?s2"
        have r: "retry_boot env n b s = retry_boot env (Suc n) (Some i) ?s3"
          by (simp add: att Some True)
        have bs: "set (bootable_slots (slots ?s3)) = set (bootable_slots (slots s)) - {i}"
          by (simp add: set_bootable_slots_deactivate)
        have tr: "trace ?s3 = trace s @ attempt_events i"
          by (simp add: attempt_events_def)
        from step.IH[OF ms \<open>partition_find_boot_slot (slots s) = Some i\<close> Some True ms]
        obtain order tl where o: "distinct order" "set order \<subseteq> set (bootable_slots (slots ?s3))"
          "trace (snd (retry_boot env (Suc n) (Some i) ?s3)) = trace ?s3 @ concat (map attempt_events order) @ tl"
          and d: "(fst (retry_boot env (Suc n) (Some i) ?s3) = None \<and> tl = [MarkActiveSlot None] \<and>
             set order = set (bootable_slots (slots ?s3)) \<and>
             bootable_slots (slots (snd (retry_boot env (Suc n) (Some i) ?s3))) = [])
            \<or>
            (\<exists>j. j \<in> set (bootable_slots (slots ?s3)) \<and> j \<notin> set order \<and>
                 tl = [MarkActiveSlot (Some j), BootLinuxFromMmc (Some j)] \<and>
                 (case boot_linux_from_mmc env (Suc n + length order) (Some j) of
                    None \<Rightarrow> fst (retry_boot env (Suc n) (Some i) ?s3) = Some KernelStarted
                  | Some e \<Rightarrow> \<not> retryable e \<and> fst (retry_boot env (Suc n) (Some i) ?s3) = None))"
          by blast
        have 1: "distinct (i # order)" using o(1,2) bs by auto
        have 2: "set (i # order) \<subseteq> set (bootable_slots (slots s))" using o(2) bs ib by auto
        have 3: "trace (snd (retry_boot env n b s)) =
                   trace s @ concat (map attempt_events (i # order)) @ tl"
          using o(3) by (simp add: r attempt_events_def)
        have 4: "(fst (retry_boot env n b s) = None \<and> tl = [MarkActiveSlot None] \<and>
             set (i # order) = set (bootable_slots (slots s)) \<and>
             bootable_slots (slots (snd (retry_boot env n b s))) = [])
            \<or>
            (\<exists>j. j \<in> set (bootable_slots (slots s)) \<and> j \<notin> set (i # order) \<and>
                 tl = [MarkActiveSlot (Some j), BootLinuxFromMmc (Some j)] \<and>
                 (case boot_linux_from_mmc env (n + length (i # order)) (Some j) of
                    None \<Rightarrow> fst (retry_boot env n b s) = Some KernelStarted
                  | Some e \<Rightarrow> \<not> retryable e \<and> fst (retry_boot env n b s) = None))"
          using d
        proof
          assume a: "fst (retry_boot env (Suc n) (Some i) ?s3) = None \<and> tl = [MarkActiveSlot None] \<and>
             set order = set (bootable_slots (slots ?s3)) \<and>
             bootable_slots (slots (snd (retry_boot env (Suc n) (Some i) ?s3))) = []"
          have "set (i # order) = set (bootable_slots (slots s))"
            using a bs ib by auto
          with a show ?thesis unfolding r by blast
        next
          assume "\<exists>j. j \<in> set (bootable_slots (slots ?s3)) \<and> j \<notin> set order \<and>
                 tl = [MarkActiveSlot (Some j), BootLinuxFromMmc (Some j)] \<and>
                 (case boot_linux_from_mmc env (Suc n + length order) (Some j) of
                    None \<Rightarrow> fst (retry_boot env (Suc n) (Some i) ?s3) = Some KernelStarted
                  | Some e \<Rightarrow> \<not> retryable e \<and> fst (retry_boot env (Suc n) (Some i) ?s3) = None)"
          then obtain j where j: "j \<in> set (bootable_slots (slots ?s3))" "j \<notin> set order"
            "tl = [MarkActiveSlot (Some j), BootLinuxFromMmc (Some j)]"
            "(case boot_linux_from_mmc env (Suc n + length order) (Some j) of
                    None \<Rightarrow> fst (retry_boot env (Suc n) (Some i) ?s3) = Some KernelStarted
                  | Some e \<Rightarrow> \<not> retryable e \<and> fst (retry_boot env (Suc n) (Some i) ?s3) = None)"
            by blast
          have "j \<in> set (bootable_slots (slots s))" "j \<notin> set (i # order)"
            using j(1,2) bs by auto
          moreover have "n + length (i # order) = Suc n + length order" by simp
          ultimately show ?thesis
            using j(3,4) unfolding r by (metis (no_types, lifting))
        qed
        show ?thesis
          using 1 2 3 4 by blast
      qed
    qed
  qed
qed

theorem retry_boot_slots_witness:
  "partition_multislot_is_supported bad_magic_env \<and>
   (\<exists>order tl.
      distinct order \<and>
      set order \<subseteq> set (bootable_slots (slots (cold_state\<lparr>slots := two_slots\<rparr>))) \<and>
      trace (snd (retry_boot bad_magic_env 0 None (cold_state\<lparr>slots := two_slots\<rparr>))) =
        trace (cold_state\<lparr>slots := two_slots\<rparr>) @ concat (map attempt_events order) @ tl \<and>
      fst (retry_boot bad_magic_env 0 None (cold_state\<lparr>slots := two_slots\<rparr>)) = None \<and>
      tl = [MarkActiveSlot None] \<and>
      set order = set (bootable_slots (slots (cold_state\<lparr>slots := two_slots\<rparr>))) \<and>
      bootable_slots
        (slots (snd (retry_boot bad_magic_env 0 None (cold_state\<lparr>slots := two_slots\<rparr>)))) = [])"
  using retry_boot_slots[of bad_magic_env "cold_state\<lparr>slots := two_slots\<rparr>" 0 None]
  by (simp add: bad_magic_env_def quiet_env_def retryable_def)

text \<open>
  C3, as the code has it. On multi-slot hardware, when \<open>partition_find_active_slot\<close>
  returns \<open>INVALID\<close> and the set-up completes (the memory-range \<open>ASSERT\<close> holds, the
  display wait ends), \<open>aboot_init\<close> attempts no boot and starts fastboot, also after a
  forced reset and for every reset reason, with two exceptions that the code makes itself:
  both volume keys with a successful emergency reset (the device resets into emergency
  download), and a halt in the policy step (failed key deletion or failed write of the
  device record).
\<close>

theorem invalid_active_slot_outcome:
  assumes "MEMBASE cfg < MEMBASE cfg + MEMSIZE cfg"
    and "\<exists>k. \<not> pm_app_display_shutdown_in_prgs env k"
    and "partition_multislot_is_supported env"
    and "partition_find_active_slot (slots g) = None"
  shows "\<exists>s'. aboot_init cfg env g =
                Some (if \<not> is_user_force_reset env \<and> dload_keys env \<and>
                         \<not> reboot_device_returns env
                      then DloadReset
                      else if \<not> is_user_force_reset env \<and> policy_halts cfg env then Halted
                      else FastbootStarted, s') \<and>
              (\<forall>e \<in> set (events_since g s'). \<not> is_boot_attempt e)"
  using assms by (intro aboot_init_latched) simp_all

theorem invalid_active_slot_outcome_witness:
  "MEMBASE plain_config < MEMBASE plain_config + MEMSIZE plain_config \<and>
   (\<exists>k. \<not> pm_app_display_shutdown_in_prgs user_reset_env k) \<and>
   partition_multislot_is_supported (user_reset_env\<lparr>partition_multislot_is_supported := True\<rparr>) \<and>
   partition_find_active_slot (slots (cold_state\<lparr>slots := no_active_slots\<rparr>)) = None \<and>
   (\<exists>s'. aboot_init plain_config (user_reset_env\<lparr>partition_multislot_is_supported := True\<rparr>)
            (cold_state\<lparr>slots := no_active_slots\<rparr>) = Some (FastbootStarted, s') \<and>
         (\<forall>e \<in> set (events_since (cold_state\<lparr>slots := no_active_slots\<rparr>) s').
            \<not> is_boot_attempt e))"
  using invalid_active_slot_outcome[where cfg = plain_config
      and env = "user_reset_env\<lparr>partition_multislot_is_supported := True\<rparr>"
      and g = "cold_state\<lparr>slots := no_active_slots\<rparr>"]
  by (simp add: input_defs partition_find_active_slot_def)

text \<open>
  The statement of C3 without the exceptions fails: no active slot, both volume keys down,
  the emergency reset succeeds.
\<close>

theorem invalid_slot_counterexample:
  "partition_multislot_is_supported dload_multislot_env \<and>
   partition_find_active_slot no_active_slots = None \<and>
   map_option fst (aboot_init plain_config dload_multislot_env (cold_state\<lparr>slots := no_active_slots\<rparr>))
     = Some DloadReset"
  by (simp add: model_defs input_defs retry_boot.simps)

text \<open>
  C4. When control reaches the policy step (no forced reset, and no emergency reset that took
  the device away), the register asks to clear the keys, the verified-boot branch is compiled
  in and the target meets the minimum version, and \<open>send_delete_keys_to_tz\<close> reports a
  failure, then \<open>aboot_init\<close> halts in the \<open>ASSERT\<close>: the request to the trusted
  environment is the last thing it does. No boot is attempted and fastboot is not started.
\<close>

theorem keysclear_failure_halts:
  assumes "\<not> is_user_force_reset env"
    and "\<not> (dload_keys env \<and> \<not> reboot_device_returns env)"
    and "vb_policy_enabled cfg env"
    and "read_reboot_mode cfg env = DM_VERITY_KEYSCLEAR"
    and "send_delete_keys_to_tz env \<noteq> 0"
  shows "fst (aboot_decide cfg env b s) = Halted \<and>
         events_since s (snd (aboot_decide cfg env b s)) =
           (if dload_keys env then [RebootDevice] else []) @ [SendDeleteKeysToTz]"
proof -
  have "apply_reboot_mode cfg env DM_VERITY_KEYSCLEAR (reg_state cfg env s) =
          Inl (Halted, log SendDeleteKeysToTz (reg_state cfg env s))"
    using assms(3,5) by (simp add: apply_reboot_mode_def Let_def)
  then have "aboot_decide cfg env b s = (Halted, log SendDeleteKeysToTz (reg_state cfg env s))"
    using assms(1,2,4) by (simp add: aboot_decide_def signal_phase_reg)
  then show ?thesis
    by (simp add: events_since_def reg_state_frame)
qed

theorem keysclear_failure_halts_witness:
  "\<not> is_user_force_reset keysclear_env \<and>
   \<not> (dload_keys keysclear_env \<and> \<not> reboot_device_returns keysclear_env) \<and>
   vb_policy_enabled plain_config keysclear_env \<and>
   read_reboot_mode plain_config keysclear_env = DM_VERITY_KEYSCLEAR \<and>
   send_delete_keys_to_tz keysclear_env \<noteq> 0 \<and>
   fst (aboot_decide plain_config keysclear_env None cold_state) = Halted \<and>
   events_since cold_state (snd (aboot_decide plain_config keysclear_env None cold_state)) =
     [SendDeleteKeysToTz]"
  using keysclear_failure_halts[where env = keysclear_env and cfg = plain_config and b = None
      and s = cold_state]
  by (simp add: env_defs)

text \<open>
  C5, as the code has it. On a build with \<open>LK2ND_FORCE_FASTBOOT\<close>, when the
  forced-user-reset indicator is not set and the set-up completes, \<open>aboot_init\<close> attempts
  no boot and starts fastboot, whatever the slots and the other signals are, unless the
  emergency reset takes the device away or the policy step halts. The flag is set after the
  test of \<open>is_user_force_reset\<close> and before the label \<open>normal_boot\<close>, so a forced reset
  jumps over it.
\<close>

theorem force_fastboot_outcome:
  assumes "MEMBASE cfg < MEMBASE cfg + MEMSIZE cfg"
    and "\<exists>k. \<not> pm_app_display_shutdown_in_prgs env k"
    and "LK2ND_FORCE_FASTBOOT cfg"
    and "\<not> is_user_force_reset env"
  shows "\<exists>s'. aboot_init cfg env g =
                Some (if dload_keys env \<and> \<not> reboot_device_returns env then DloadReset
                      else if policy_halts cfg env then Halted
                      else FastbootStarted, s') \<and>
              (\<forall>e \<in> set (events_since g s'). \<not> is_boot_attempt e)"
proof -
  have "(partition_multislot_is_supported env \<and> partition_find_active_slot (slots g) = None) \<or>
        (\<not> is_user_force_reset env \<and> (LK2ND_FORCE_FASTBOOT cfg \<or> dload_keys env))"
    using assms(3,4) by simp
  from aboot_init_latched[OF assms(1,2) this] assms(4) show ?thesis
    by (simp cong: if_cong)
qed

theorem force_fastboot_outcome_witness:
  "MEMBASE forced_fastboot_config < MEMBASE forced_fastboot_config + MEMSIZE forced_fastboot_config \<and>
   (\<exists>k. \<not> pm_app_display_shutdown_in_prgs quiet_env k) \<and>
   LK2ND_FORCE_FASTBOOT forced_fastboot_config \<and> \<not> is_user_force_reset quiet_env \<and>
   (\<exists>s'. aboot_init forced_fastboot_config quiet_env cold_state = Some (FastbootStarted, s') \<and>
         (\<forall>e \<in> set (events_since cold_state s'). \<not> is_boot_attempt e))"
  using force_fastboot_outcome[where cfg = forced_fastboot_config and env = quiet_env
      and g = cold_state]
  by (simp add: input_defs policy_halts_def)

text \<open>
  The statement of C5 with the forced-user-reset indicator set fails: the kernel is loaded
  from eMMC and started.
\<close>

theorem force_fastboot_counterexample:
  "LK2ND_FORCE_FASTBOOT forced_fastboot_config \<and>
   map_option fst (aboot_init forced_fastboot_config user_reset_env cold_state) = Some KernelStarted \<and>
   map_option (\<lambda>r. events_since cold_state (snd r))
     (aboot_init forced_fastboot_config user_reset_env cold_state) =
     Some [Lk2ndInit, EmmcRecoveryInit, BootLinuxFromMmc None]"
  by (simp add: model_defs input_defs retry_boot.simps)

text \<open>
  C6. On a build and target at or above the minimum verified-boot version, and when the write
  succeeds, the reason code for enforcing sets \<open>verity_mode\<close> to 1 and stores the device
  record, the reason code for logging sets it to 0 and stores the record; applying the same
  code again leaves the device record and its stored copy as they are. Below the minimum
  version the verity codes change nothing and the device record is never written. In every
  case \<open>aboot_init\<close> writes the device record at most once.
\<close>

theorem verity_policy_transitions:
  "(vb_policy_enabled cfg env \<and> \<not> write_device_info_fails env \<longrightarrow>
      (\<exists>s1 s2. apply_reboot_mode cfg env DM_VERITY_ENFORCING s = Inr s1 \<and>
          device s1 = (device s)\<lparr>verity_mode := 1\<rparr> \<and> nv_device s1 = device s1 \<and>
          events_since s s1 = [WriteDeviceInfo (device s1)] \<and>
          apply_reboot_mode cfg env DM_VERITY_ENFORCING s1 = Inr s2 \<and>
          device s2 = device s1 \<and> nv_device s2 = nv_device s1) \<and>
      (\<exists>s1 s2. apply_reboot_mode cfg env (verity_logging_code cfg) s = Inr s1 \<and>
          device s1 = (device s)\<lparr>verity_mode := 0\<rparr> \<and> nv_device s1 = device s1 \<and>
          events_since s s1 = [WriteDeviceInfo (device s1)] \<and>
          apply_reboot_mode cfg env (verity_logging_code cfg) s1 = Inr s2 \<and>
          device s2 = device s1 \<and> nv_device s2 = nv_device s1)) \<and>
   (\<not> vb_policy_enabled cfg env \<longrightarrow>
      apply_reboot_mode cfg env DM_VERITY_ENFORCING s = Inr s \<and>
      apply_reboot_mode cfg env (verity_logging_code cfg) s = Inr s \<and>
      apply_reboot_mode cfg env DM_VERITY_KEYSCLEAR s = Inr s \<and>
      device (snd (aboot_decide cfg env b s)) = device s \<and>
      nv_device (snd (aboot_decide cfg env b s)) = nv_device s \<and>
      filter is_device_write (events_since s (snd (aboot_decide cfg env b s))) = []) \<and>
   length (filter is_device_write (events_since s (snd (aboot_decide cfg env b s)))) \<le> 1"
proof (intro conjI impI)
  assume a: "vb_policy_enabled cfg env \<and> \<not> write_device_info_fails env"
  show "\<exists>s1 s2. apply_reboot_mode cfg env DM_VERITY_ENFORCING s = Inr s1 \<and>
          device s1 = (device s)\<lparr>verity_mode := 1\<rparr> \<and> nv_device s1 = device s1 \<and>
          events_since s s1 = [WriteDeviceInfo (device s1)] \<and>
          apply_reboot_mode cfg env DM_VERITY_ENFORCING s1 = Inr s2 \<and>
          device s2 = device s1 \<and> nv_device s2 = nv_device s1"
    using a by (simp add: apply_reboot_mode_def write_device_info_cases events_since_def)
  show "\<exists>s1 s2. apply_reboot_mode cfg env (verity_logging_code cfg) s = Inr s1 \<and>
          device s1 = (device s)\<lparr>verity_mode := 0\<rparr> \<and> nv_device s1 = device s1 \<and>
          events_since s s1 = [WriteDeviceInfo (device s1)] \<and>
          apply_reboot_mode cfg env (verity_logging_code cfg) s1 = Inr s2 \<and>
          device s2 = device s1 \<and> nv_device s2 = nv_device s1"
    using a by (simp add: apply_reboot_mode_def write_device_info_cases events_since_def)
next
  assume a: "\<not> vb_policy_enabled cfg env"
  show "apply_reboot_mode cfg env DM_VERITY_ENFORCING s = Inr s"
    "apply_reboot_mode cfg env (verity_logging_code cfg) s = Inr s"
    "apply_reboot_mode cfg env DM_VERITY_KEYSCLEAR s = Inr s"
    using a by (simp_all add: apply_reboot_mode_def)
  show "device (snd (aboot_decide cfg env b s)) = device s"
    "nv_device (snd (aboot_decide cfg env b s)) = nv_device s"
    "filter is_device_write (events_since s (snd (aboot_decide cfg env b s))) = []"
    using aboot_decide_disabled[OF a, of b s] by simp_all
next
  show "length (filter is_device_write (events_since s (snd (aboot_decide cfg env b s)))) \<le> 1"
    by (rule aboot_decide_writes)
qed

theorem verity_policy_transitions_witness:
  "vb_policy_enabled plain_config enforcing_env \<and> \<not> write_device_info_fails enforcing_env \<and>
   (\<exists>s1 s2. apply_reboot_mode plain_config enforcing_env DM_VERITY_ENFORCING cold_state = Inr s1 \<and>
       device s1 = (device cold_state)\<lparr>verity_mode := 1\<rparr> \<and> nv_device s1 = device s1 \<and>
       events_since cold_state s1 = [WriteDeviceInfo (device s1)] \<and>
       apply_reboot_mode plain_config enforcing_env DM_VERITY_ENFORCING s1 = Inr s2 \<and>
       device s2 = device s1 \<and> nv_device s2 = nv_device s1) \<and>
   \<not> vb_policy_enabled plain_config old_vb_env \<and>
   apply_reboot_mode plain_config old_vb_env DM_VERITY_ENFORCING cold_state = Inr cold_state \<and>
   filter is_device_write
     (events_since cold_state (snd (aboot_decide plain_config old_vb_env None cold_state))) = []"
  using verity_policy_transitions[where cfg = plain_config and env = enforcing_env
      and s = cold_state and b = None]
    verity_policy_transitions[where cfg = plain_config and env = old_vb_env
      and s = cold_state and b = None]
  by (simp add: env_defs)

text \<open>
  C7, as the code has it. With both volume keys down and no forced reset, the first thing
  the decision does is \<open>reboot_device(EMERGENCY_DLOAD)\<close>. When the request succeeds the
  device resets into emergency download. When it comes back, fastboot is latched and no boot
  is attempted: fastboot is started, unless the policy step that follows halts the boot
  (failed key deletion or failed write of the device record).
\<close>

theorem dload_keys_request_reset:
  assumes "dload_keys env" and "\<not> is_user_force_reset env"
  shows "(\<exists>ev. events_since s (snd (aboot_decide cfg env b s)) = RebootDevice # ev \<and>
               (\<forall>e \<in> set ev. \<not> is_boot_attempt e)) \<and>
         fst (aboot_decide cfg env b s) =
           (if \<not> reboot_device_returns env then DloadReset
            else if policy_halts cfg env then Halted
            else FastbootStarted)"
proof -
  have l: "boot_into_fastboot s \<or>
      (\<not> is_user_force_reset env \<and> (LK2ND_FORCE_FASTBOOT cfg \<or> dload_keys env))"
    using assms by simp
  note d = decide_latched[OF l, of b]
  from decide_dload_first[OF assms, of s cfg b]
  obtain ev where ev: "events_since s (snd (aboot_decide cfg env b s)) = RebootDevice # ev" ..
  from appends_events[OF d(2)] ev have "\<forall>e \<in> set ev. \<not> is_boot_attempt e" by simp
  with ev d(1) assms show ?thesis by simp
qed

theorem dload_keys_request_reset_witness:
  "dload_keys dload_multislot_env \<and> \<not> is_user_force_reset dload_multislot_env \<and>
   (\<exists>ev. events_since cold_state (snd (aboot_decide plain_config dload_multislot_env None cold_state))
            = RebootDevice # ev \<and> (\<forall>e \<in> set ev. \<not> is_boot_attempt e)) \<and>
   fst (aboot_decide plain_config dload_multislot_env None cold_state) = DloadReset \<and>
   dload_keys (dload_multislot_env\<lparr>reboot_device_returns := True\<rparr>) \<and>
   fst (aboot_decide plain_config (dload_multislot_env\<lparr>reboot_device_returns := True\<rparr>) None
          cold_state) = FastbootStarted"
  using dload_keys_request_reset[where env = dload_multislot_env and cfg = plain_config
      and b = None and s = cold_state]
    dload_keys_request_reset[where env = "dload_multislot_env\<lparr>reboot_device_returns := True\<rparr>"
      and cfg = plain_config and b = None and s = cold_state]
  by (simp add: input_defs policy_halts_def)

text \<open>
  The statement of C7 without the exception fails: the reset request comes back, the register
  asks to clear the keys and the trusted environment refuses; the boot halts.
\<close>

theorem dload_failure_counterexample:
  "dload_keys dload_keysclear_env \<and> \<not> is_user_force_reset dload_keysclear_env \<and>
   reboot_device_returns dload_keysclear_env \<and>
   map_option fst (aboot_init plain_config dload_keysclear_env cold_state) = Some Halted"
  by (simp add: model_defs input_defs retry_boot.simps)

text \<open>
  C8, as the code has it. On a build with a tamper mechanism (\<open>TZ_TAMPER_FUSE\<close> or
  \<open>USE_PCOM_SECBOOT\<close>), with a signed kernel and a device that is unlocked or marked
  tampered, every call of \<open>boot_linux_from_mmc\<close> comes after a tamper signal
  (\<open>set_tamper_fuse_cmd\<close> or \<open>set_tamper_flag\<close>): the load is never attempted first.
\<close>

theorem tamper_signal_before_load:
  assumes "TZ_TAMPER_FUSE cfg \<or> USE_PCOM_SECBOOT cfg"
    and "target_use_signed_kernel env"
    and "is_unlocked (device s) \<or> is_tampered (device s)"
  shows "\<forall>pre slot post.
           events_since s (snd (aboot_decide cfg env b s)) = pre @ BootLinuxFromMmc slot # post
           \<longrightarrow> (\<exists>e \<in> set pre. is_tamper_signal e)"
proof -
  have "tamper_first (events_since s (snd (aboot_decide cfg env b s)))"
  proof (cases "signal_phase cfg env s")
    case (Inl stop)
    obtain out s' where stop: "stop = (out, s')" by (cases stop)
    have "appends (\<lambda>e. \<not> is_mmc_load e) s s'"
      by (rule appends_mono[OF signal_phase_Inl(3)[OF Inl[unfolded stop]]])
        (auto dest: mmc_load_is_attempt)
    then show ?thesis
      by (simp add: aboot_decide_def Inl stop tamper_first_no_load appends_list_all)
  next
    case (Inr s1)
    have a: "appends (\<lambda>e. \<not> is_mmc_load e) s s1"
      by (rule appends_mono[OF signal_phase_Inr(1)[OF Inr]]) (auto dest: mmc_load_is_attempt)
    have "is_unlocked (device s1) \<or> is_tampered (device s1)"
      using assms(3) signal_phase_Inr(4,5)[OF Inr] by simp
    from normal_boot_tamper_first[OF assms(1,2) this]
    have n: "tamper_first (events_since s1 (snd (normal_boot cfg env b s1)))" .
    have "events_since s (snd (normal_boot cfg env b s1)) =
            events_since s s1 @ events_since s1 (snd (normal_boot cfg env b s1))"
      using a normal_boot_frame(3)[where cfg = cfg and env = env and b = b and s = s1]
      by (rule events_since_trans)
    with n appends_list_all[OF a] show ?thesis
      by (simp add: aboot_decide_def Inr tamper_first_append)
  qed
  then show ?thesis
    by (blast dest: tamper_first_load)
qed

theorem tamper_signal_before_load_witness:
  "(TZ_TAMPER_FUSE tamper_fuse_config \<or> USE_PCOM_SECBOOT tamper_fuse_config) \<and>
   target_use_signed_kernel quiet_env \<and>
   (is_unlocked (device unlocked_state) \<or> is_tampered (device unlocked_state)) \<and>
   events_since unlocked_state (snd (aboot_decide tamper_fuse_config quiet_env None unlocked_state)) =
     [EmmcRecoveryInit, SetTamperFuseCmd] @ BootLinuxFromMmc None # [] \<and>
   (\<exists>e \<in> set [EmmcRecoveryInit, SetTamperFuseCmd]. is_tamper_signal e)"
proof -
  have e: "events_since unlocked_state
             (snd (aboot_decide tamper_fuse_config quiet_env None unlocked_state)) =
           [EmmcRecoveryInit, SetTamperFuseCmd] @ BootLinuxFromMmc None # []"
    by (simp add: model_defs input_defs unlocked_state_def tamper_fuse_config_def
        retry_boot.simps)
  from tamper_signal_before_load[where cfg = tamper_fuse_config and env = quiet_env
      and s = unlocked_state and b = None, rule_format, OF _ _ _ e]
  show ?thesis
    using e by (simp add: input_defs unlocked_state_def tamper_fuse_config_def)
qed

text \<open>
  The statement of C8 for every build fails: with neither tamper mechanism compiled in, the
  image of an unlocked device is loaded from eMMC and no tamper signal is ever sent.
\<close>

theorem tamper_signal_counterexample:
  "target_is_emmc_boot quiet_env \<and> target_use_signed_kernel quiet_env \<and>
   map_option (\<lambda>r. (fst r, is_unlocked (device (snd r)), trace (snd r)))
     (aboot_init plain_config quiet_env unlocked_state) =
     Some (KernelStarted, True, [Lk2ndInit, EmmcRecoveryInit, BootLinuxFromMmc None])"
  by (simp add: model_defs input_defs unlocked_state_def retry_boot.simps)

text \<open>
  C9. When control reaches the policy step, the register asks for enforcing or for logging,
  the verified-boot branch is active and the write of the device record fails, then the boot
  halts at the write: the stored copy is unchanged, the write is the last event, no later
  step of the decision runs.
\<close>

theorem device_write_failure_halts:
  assumes "\<not> is_user_force_reset env"
    and "\<not> (dload_keys env \<and> \<not> reboot_device_returns env)"
    and "vb_policy_enabled cfg env"
    and "read_reboot_mode cfg env = DM_VERITY_ENFORCING \<or>
         read_reboot_mode cfg env = verity_logging_code cfg"
    and "write_device_info_fails env"
  shows "fst (aboot_decide cfg env b s) = Halted \<and>
         nv_device (snd (aboot_decide cfg env b s)) = nv_device s \<and>
         events_since s (snd (aboot_decide cfg env b s)) =
           (if dload_keys env then [RebootDevice] else []) @
           [WriteDeviceInfo ((device s)\<lparr>verity_mode :=
              (if read_reboot_mode cfg env = DM_VERITY_ENFORCING then 1 else 0)\<rparr>)]"
proof -
  let ?d = "(device s)\<lparr>verity_mode :=
              (if read_reboot_mode cfg env = DM_VERITY_ENFORCING then 1 else 0)\<rparr>"
  let ?k = "reg_state cfg env s"
  have "apply_reboot_mode cfg env (read_reboot_mode cfg env) ?k =
          Inl (Halted, log (WriteDeviceInfo ?d) (?k\<lparr>device := ?d\<rparr>))"
    using assms(3,4,5)
    by (auto simp: apply_reboot_mode_def write_device_info_cases reg_state_frame)
  then have "aboot_decide cfg env b s = (Halted, log (WriteDeviceInfo ?d) (?k\<lparr>device := ?d\<rparr>))"
    using assms(1,2) by (simp add: aboot_decide_def signal_phase_reg)
  then show ?thesis
    by (simp add: events_since_def reg_state_frame)
qed

theorem device_write_failure_halts_witness:
  "\<not> is_user_force_reset write_fail_env \<and>
   \<not> (dload_keys write_fail_env \<and> \<not> reboot_device_returns write_fail_env) \<and>
   vb_policy_enabled plain_config write_fail_env \<and>
   read_reboot_mode plain_config write_fail_env = DM_VERITY_ENFORCING \<and>
   write_device_info_fails write_fail_env \<and>
   fst (aboot_decide plain_config write_fail_env None cold_state) = Halted \<and>
   nv_device (snd (aboot_decide plain_config write_fail_env None cold_state)) =
     nv_device cold_state \<and>
   events_since cold_state (snd (aboot_decide plain_config write_fail_env None cold_state)) =
     [WriteDeviceInfo ((device cold_state)\<lparr>verity_mode := 1\<rparr>)]"
  using device_write_failure_halts[where env = write_fail_env and cfg = plain_config and b = None
      and s = cold_state]
  by (simp add: env_defs)

text \<open>
  C10. After a forced reset by the user the signal and policy phase leaves the state as it
  is, whatever the reset-reason register holds: the jump to \<open>normal_boot\<close> skips the
  policy step. The rest of \<open>aboot_init\<close> does not touch the device record either, so
  \<open>write_device_info\<close> is never called.
\<close>

theorem force_reset_keeps_device_state:
  assumes "is_user_force_reset env"
  shows "signal_phase cfg env s = Inr s \<and>
         device (snd (aboot_decide cfg env b s)) = device s \<and>
         nv_device (snd (aboot_decide cfg env b s)) = nv_device s \<and>
         (\<forall>e \<in> set (events_since s (snd (aboot_decide cfg env b s))). \<not> is_device_write e)"
  using assms normal_boot_frame(1,2)[where cfg = cfg and env = env and b = b and s = s]
    appends_events[OF normal_boot_frame(3)[where cfg = cfg and env = env and b = b and s = s]]
  by (simp add: aboot_decide_force_reset signal_phase_cases)

theorem force_reset_keeps_device_state_witness:
  "is_user_force_reset forced_reset_env \<and>
   vb_policy_enabled plain_config forced_reset_env \<and>
   read_reboot_mode plain_config forced_reset_env = DM_VERITY_ENFORCING \<and>
   signal_phase plain_config forced_reset_env cold_state = Inr cold_state \<and>
   device (snd (aboot_decide plain_config forced_reset_env None cold_state)) = device cold_state \<and>
   nv_device (snd (aboot_decide plain_config forced_reset_env None cold_state)) =
     nv_device cold_state \<and>
   filter is_device_write
     (events_since cold_state (snd (aboot_decide plain_config forced_reset_env None cold_state)))
     = []"
  using force_reset_keeps_device_state[where env = forced_reset_env and cfg = plain_config
      and b = None and s = cold_state]
  by (simp add: env_defs filter_empty_conv)

end
